theory Spec2Isabelle
  imports Main "HOL-Library.Char_ord" "HOL-Library.List_Lexorder"
begin

section \<open>Python strings\<close>

text \<open>
  The crawler is written in Python. Its strings are modelled as \<open>string\<close>, lists of
  8-bit characters, read as the code points U+0000 to U+00FF; a Python string with a
  code point above U+00FF has no counterpart here. The classes of characters and the
  case mappings below are those of Python on that range, ASCII or not. The operations
  keep the names of the \<open>str\<close> methods they stand for, with the prefix \<open>py_\<close>. Strings
  compare in Python by code point, character by character; that is the lexicographic
  order of \<open>HOL-Library.List_Lexorder\<close> over \<open>HOL-Library.Char_ord\<close>.
\<close>

definition ascii_upper :: string where
  "ascii_upper = ''ABCDEFGHIJKLMNOPQRSTUVWXYZ''"

definition ascii_lower :: string where
  "ascii_lower = ''abcdefghijklmnopqrstuvwxyz''"

definition digit_chars :: string where
  "digit_chars = ''0123456789''"

text \<open>\<open>c.isascii() and c.isalpha()\<close>: the 52 letters of ASCII.\<close>

definition isascii_alpha :: "char \<Rightarrow> bool" where
  "isascii_alpha c = (c \<in> set ascii_lower \<or> c \<in> set ascii_upper)"

text \<open>\<open>str.isdecimal\<close>: the ten digits. \<open>str.isdigit\<close>: the ten digits and the
  superscripts two, three and one (U+00B2, U+00B3, U+00B9).\<close>

definition isdecimal :: "char \<Rightarrow> bool" where
  "isdecimal c = (c \<in> set digit_chars)"

definition isdigit :: "char \<Rightarrow> bool" where
  "isdigit c = (c \<in> set digit_chars \<or> of_char c \<in> {178, 179, 185 :: nat})"

text \<open>\<open>str.isspace\<close>: tab, line feed, vertical tab, form feed, carriage return, the
  four separators U+001C to U+001F, the space, the next-line control U+0085 and the
  no-break space U+00A0.\<close>

definition isspace :: "char \<Rightarrow> bool" where
  "isspace c = (of_char c \<in> {9, 10, 11, 12, 13, 28, 29, 30, 31, 32, 133, 160 :: nat})"

text \<open>\<open>str.lower\<close>, character by character: the capital letters of ASCII, and the
  capital letters U+00C0 to U+00DE without the multiplication sign U+00D7, go 32 code
  points up. Nothing else below U+0100 changes.\<close>

definition lower_char :: "char \<Rightarrow> char" where
  "lower_char c =
     (case map_of (zip ascii_upper ascii_lower) c of
        Some d \<Rightarrow> d
      | None \<Rightarrow> (let n = of_char c :: nat
                 in if 192 \<le> n \<and> n \<le> 222 \<and> n \<noteq> 215 then char_of (n + 32) else c))"

definition py_lower :: "string \<Rightarrow> string" where
  "py_lower s = map lower_char s"

text \<open>
  \<open>str.title\<close>: a character is put in title case when the character before it is not
  cased, and in lower case otherwise. The cased characters below U+0100 are the letters
  of ASCII, the two ordinal indicators U+00AA and U+00BA, the micro sign U+00B5, and
  U+00C0 to U+00FF without the multiplication and the division sign. The title case of
  a small letter is the capital 32 code points down, and that of the sharp s U+00DF is
  the two letters \<open>Ss\<close>.

  The title case of the micro sign U+00B5 and of U+00FF lies above U+00FF (U+039C,
  U+0178). \<open>title_char\<close> leaves these two as they are, so \<open>py_title\<close> is \<open>str.title\<close>
  on the strings that \<open>title_in_range\<close> admits.
\<close>

definition upper_char :: "char \<Rightarrow> char" where
  "upper_char c =
     (case map_of (zip ascii_lower ascii_upper) c of
        Some d \<Rightarrow> d
      | None \<Rightarrow> (let n = of_char c :: nat
                 in if 224 \<le> n \<and> n \<le> 254 \<and> n \<noteq> 247 then char_of (n - 32) else c))"

definition title_char :: "char \<Rightarrow> string" where
  "title_char c = (if of_char c = (223 :: nat) then ''Ss'' else [upper_char c])"

definition cased :: "char \<Rightarrow> bool" where
  "cased c =
     (isascii_alpha c
      \<or> (let n = of_char c :: nat
         in n = 170 \<or> n = 181 \<or> n = 186 \<or> (192 \<le> n \<and> n \<noteq> 215 \<and> n \<noteq> 247)))"

fun title_from :: "bool \<Rightarrow> string \<Rightarrow> string" where
  "title_from prev_cased [] = []"
| "title_from prev_cased (c # cs) =
     (if prev_cased then [lower_char c] else title_char c) @ title_from (cased c) cs"

definition py_title :: "string \<Rightarrow> string" where
  "py_title s = title_from False s"

definition title_in_range :: "string \<Rightarrow> bool" where
  "title_in_range s = list_all (\<lambda>c. of_char c \<noteq> (181 :: nat) \<and> of_char c \<noteq> (255 :: nat)) s"

fun startswith :: "string \<Rightarrow> string \<Rightarrow> bool" where
  "startswith s [] = True"
| "startswith [] (p # ps) = False"
| "startswith (c # s) (p # ps) = (c = p \<and> startswith s ps)"

definition endswith :: "string \<Rightarrow> string \<Rightarrow> bool" where
  "endswith s p = startswith (rev s) (rev p)"

text \<open>\<open>p in s\<close> for strings: \<open>p\<close> occurs in \<open>s\<close> as a contiguous substring.\<close>

fun py_in :: "string \<Rightarrow> string \<Rightarrow> bool" where
  "py_in p [] = (p = [])"
| "py_in p (c # s) = (startswith (c # s) p \<or> py_in p s)"

text \<open>\<open>s.split(c)\<close> for a one-character separator: never the empty list.\<close>

fun py_split :: "char \<Rightarrow> string \<Rightarrow> string list" where
  "py_split sep [] = [[]]"
| "py_split sep (c # s) =
     (if c = sep then [] # py_split sep s
      else (case py_split sep s of [] \<Rightarrow> [[c]] | w # ws \<Rightarrow> (c # w) # ws))"

text \<open>\<open>sep.join(parts)\<close>.\<close>

fun py_join :: "string \<Rightarrow> string list \<Rightarrow> string" where
  "py_join sep [] = []"
| "py_join sep [w] = w"
| "py_join sep (w # v # ws) = w @ sep @ py_join sep (v # ws)"

text \<open>\<open>s.lstrip(chars)\<close>, \<open>s.rstrip(chars)\<close>, \<open>s.strip(chars)\<close> and, without an
  argument, \<open>s.strip()\<close>, which removes white space.\<close>

definition lstrip_chars :: "string \<Rightarrow> string \<Rightarrow> string" where
  "lstrip_chars chars s = dropWhile (\<lambda>c. c \<in> set chars) s"

definition rstrip_chars :: "string \<Rightarrow> string \<Rightarrow> string" where
  "rstrip_chars chars s = rev (dropWhile (\<lambda>c. c \<in> set chars) (rev s))"

definition strip_chars :: "string \<Rightarrow> string \<Rightarrow> string" where
  "strip_chars chars s = rstrip_chars chars (lstrip_chars chars s)"

definition py_strip :: "string \<Rightarrow> string" where
  "py_strip s = rev (dropWhile isspace (rev (dropWhile isspace s)))"

text \<open>\<open>s.replace(old, new)\<close>: the occurrences of \<open>old\<close> are replaced from the left,
  without overlap; an empty \<open>old\<close> matches before every character and at the end.\<close>

fun replace_from :: "string \<Rightarrow> string \<Rightarrow> string \<Rightarrow> string" where
  "replace_from [] new s = new @ concat (map (\<lambda>c. c # new) s)"
| "replace_from (p # ps) new [] = []"
| "replace_from (p # ps) new (c # s) =
     (if startswith (c # s) (p # ps)
      then new @ replace_from (p # ps) new (drop (length ps) s)
      else c # replace_from (p # ps) new s)"

definition py_replace :: "string \<Rightarrow> string \<Rightarrow> string \<Rightarrow> string" where
  "py_replace s old new = replace_from old new s"

text \<open>\<open>s.find(c)\<close> for a character: the index of the first occurrence, \<open>None\<close> for
  Python's -1.\<close>

fun py_find :: "string \<Rightarrow> char \<Rightarrow> nat option" where
  "py_find [] c = None"
| "py_find (x # s) c = (if x = c then Some 0 else map_option Suc (py_find s c))"

text \<open>\<open>s.partition(c)\<close>: the text before the first \<open>c\<close> and the text after it;
  \<open>None\<close> for the text after when \<open>c\<close> does not occur.\<close>

definition py_partition :: "string \<Rightarrow> char \<Rightarrow> string \<times> string option" where
  "py_partition s c =
     (case dropWhile (\<lambda>x. x \<noteq> c) s of
        [] \<Rightarrow> (s, None)
      | _ # rest \<Rightarrow> (takeWhile (\<lambda>x. x \<noteq> c) s, Some rest))"

subsection \<open>Decimal numbers\<close>

text \<open>\<open>str(n)\<close> for a natural number and the format \<open>{n:03d}\<close>, which pads with zeros
  to three digits and never truncates.\<close>

definition digit_char :: "nat \<Rightarrow> char" where
  "digit_char d = digit_chars ! (d mod 10)"

function str_nat :: "nat \<Rightarrow> string" where
  "str_nat n = (if n < 10 then [digit_char n] else str_nat (n div 10) @ [digit_char (n mod 10)])"
  by pat_completeness auto
termination
  by (relation "measure id") auto

declare str_nat.simps [simp del]

definition format_03d :: "nat \<Rightarrow> string" where
  "format_03d n = (let s = str_nat n in replicate (3 - length s) CHR ''0'' @ s)"

definition digit_value :: "char \<Rightarrow> nat" where
  "digit_value c = (case py_find digit_chars c of Some d \<Rightarrow> d | None \<Rightarrow> 0)"

definition nat_of_digits :: "string \<Rightarrow> nat" where
  "nat_of_digits s = foldl (\<lambda>n c. 10 * n + digit_value c) 0 s"

text \<open>
  \<open>int(s)\<close> on a string: white space around the number is ignored, one sign may precede
  the digits, and single underscores may separate digits; the digits are the ten
  decimal digits, and there are at most 4300 of them (the interpreter's default limit,
  \<open>sys.get_int_max_str_digits()\<close>). Anything else raises \<open>ValueError\<close>, which is \<open>None\<close>
  here. The white space that \<open>int\<close> ignores is not that of \<open>str.strip\<close>: it is tab to
  carriage return, the space, U+0085 and U+00A0, without the separators U+001C to
  U+001F.
\<close>

definition int_space :: "char \<Rightarrow> bool" where
  "int_space c = (of_char c \<in> {9, 10, 11, 12, 13, 32, 133, 160 :: nat})"

fun digits_with_underscores :: "string \<Rightarrow> bool" where
  "digits_with_underscores [] = False"
| "digits_with_underscores [c] = isdecimal c"
| "digits_with_underscores (c # d # s) =
     (isdecimal c \<and> (if d = CHR ''_'' then digits_with_underscores s
                      else digits_with_underscores (d # s)))"

definition py_int :: "string \<Rightarrow> int option" where
  "py_int s0 =
     (let s = rev (dropWhile int_space (rev (dropWhile int_space s0)));
          neg = startswith s ''-'';
          body = (if startswith s ''-'' \<or> startswith s ''+'' then tl s else s)
      in if digits_with_underscores body \<and> length (filter isdecimal body) \<le> 4300
         then (let n = int (nat_of_digits (filter isdecimal body))
               in Some (if neg then - n else n))
         else None)"

section \<open>The URL functions of the standard library\<close>

text \<open>
  The crawler takes URLs apart with \<open>urllib.parse.urlparse\<close> and resolves relative
  links with \<open>urllib.parse.urljoin\<close>. Both are functions of the interpreter's library,
  not of the crawler; the definitions of this section follow the code of
  \<open>Lib/urllib/parse.py\<close> and \<open>Lib/ipaddress.py\<close> in the release 3.11.10 of CPython. The
  library raises \<open>ValueError\<close> for a URL whose authority has unbalanced brackets or a
  bracketed host that is no IPv6 or IPvFuture literal, so parsing returns a sum. In
  that release \<open>urlsplit\<close> looks at the text between the brackets only, not at what
  stands before or after them in the authority, and \<open>urlunsplit\<close> writes \<open>//\<close> in
  front of a path that itself begins with \<open>//\<close>. The library also refuses an
  authority with a character that the normalisation NFKC turns into one of \<open>/?#@:\<close>;
  no character below U+0100 is such a character.
\<close>

datatype error = ValueError

record ParseResult =
  scheme :: string
  netloc :: string
  path :: string
  params :: string
  query :: string
  fragment :: string

definition uses_relative :: "string list" where
  "uses_relative = ['''', ''ftp'', ''http'', ''gopher'', ''nntp'', ''imap'', ''wais'', ''file'',
     ''https'', ''shttp'', ''mms'', ''prospero'', ''rtsp'', ''rtsps'', ''rtspu'', ''sftp'',
     ''svn'', ''svn+ssh'', ''ws'', ''wss'']"

definition uses_netloc :: "string list" where
  "uses_netloc = ['''', ''ftp'', ''http'', ''gopher'', ''nntp'', ''telnet'', ''imap'', ''wais'',
     ''file'', ''mms'', ''https'', ''shttp'', ''snews'', ''prospero'', ''rtsp'', ''rtsps'',
     ''rtspu'', ''rsync'', ''svn'', ''svn+ssh'', ''sftp'', ''nfs'', ''git'', ''git+ssh'',
     ''ws'', ''wss'']"

definition uses_params :: "string list" where
  "uses_params = ['''', ''ftp'', ''hdl'', ''prospero'', ''http'', ''imap'', ''https'', ''shttp'',
     ''rtsp'', ''rtsps'', ''rtspu'', ''sip'', ''sips'', ''mms'', ''sftp'', ''tel'']"

definition scheme_chars :: string where
  "scheme_chars = ascii_lower @ ascii_upper @ digit_chars @ ''+-.''"

definition hex_digits :: string where
  "hex_digits = ''0123456789ABCDEFabcdef''"

text \<open>The characters stripped from the front of a URL (C0 controls and the space) and
  the three removed from anywhere in it (tab, carriage return, line feed).\<close>

definition c0_control_or_space :: "char \<Rightarrow> bool" where
  "c0_control_or_space c = (of_char c \<le> (32 :: nat))"

definition unsafe_url_byte :: "char \<Rightarrow> bool" where
  "unsafe_url_byte c = (of_char c \<in> {9, 13, 10 :: nat})"

subsection \<open>Bracketed hosts\<close>

text \<open>\<open>ipaddress.IPv4Address\<close>: four decimal octets, none empty, none longer than three
  digits, none with a leading zero, none above 255.\<close>

definition parse_octet_ok :: "string \<Rightarrow> bool" where
  "parse_octet_ok s =
     (s \<noteq> [] \<and> list_all isdecimal s \<and> length s \<le> 3 \<and> (s = ''0'' \<or> hd s \<noteq> CHR ''0'')
      \<and> nat_of_digits s \<le> 255)"

definition ipv4_ok :: "string \<Rightarrow> bool" where
  "ipv4_ok s = (s \<noteq> [] \<and> length (py_split CHR ''.'' s) = 4
                \<and> list_all parse_octet_ok (py_split CHR ''.'' s))"

definition parse_hextet_ok :: "string \<Rightarrow> bool" where
  "parse_hextet_ok s = (list_all (\<lambda>c. c \<in> set hex_digits) s \<and> length s \<le> 4 \<and> s \<noteq> [])"

text \<open>\<open>ipaddress.IPv6Address\<close>: an optional scope after \<open>%\<close>, then three to nine parts
  between colons, the last of which may be an IPv4 address (it stands for two parts); at
  most one empty part in the middle, which is the \<open>::\<close> of skipped zeros; empty end
  parts only next to it.\<close>

definition ipv6_parts_ok :: "string list \<Rightarrow> bool" where
  "ipv6_parts_ok parts =
     (length parts \<le> 9 \<and>
      (case filter (\<lambda>i. parts ! i = []) [1 ..< length parts - 1] of
         [] \<Rightarrow> length parts = 8 \<and> list_all parse_hextet_ok parts
       | [skip_index] \<Rightarrow>
           (let parts_hi = (if hd parts = [] then skip_index - 1 else skip_index);
                parts_lo = (if last parts = [] then length parts - skip_index - 2
                            else length parts - skip_index - 1)
            in (hd parts = [] \<longrightarrow> parts_hi = 0) \<and> (last parts = [] \<longrightarrow> parts_lo = 0)
               \<and> parts_hi + parts_lo < 8
               \<and> list_all parse_hextet_ok (take parts_hi parts)
               \<and> list_all parse_hextet_ok (drop (length parts - parts_lo) parts))
       | _ \<Rightarrow> False))"

definition ipv6_ok :: "string \<Rightarrow> bool" where
  "ipv6_ok ip_str =
     (case py_partition ip_str CHR ''%'' of (addr, scope_id) \<Rightarrow>
        (case scope_id of None \<Rightarrow> True | Some z \<Rightarrow> z \<noteq> [] \<and> CHR ''%'' \<notin> set z)
        \<and> addr \<noteq> []
        \<and> (let parts = py_split CHR '':'' addr
            in 3 \<le> length parts
               \<and> (if CHR ''.'' \<in> set (last parts)
                   then ipv4_ok (last parts) \<and> ipv6_parts_ok (butlast parts @ [''0'', ''0''])
                   else ipv6_parts_ok parts)))"

text \<open>\<open>_check_bracketed_host\<close>: a host that starts with \<open>v\<close> must match
  \<open>v[a-fA-F0-9]+\..+\<close>; any other must be an IPv6 address.\<close>

definition check_bracketed_host :: "string \<Rightarrow> bool" where
  "check_bracketed_host hostname =
     (if startswith hostname ''v''
      then (let hex = takeWhile (\<lambda>c. c \<in> set hex_digits) (tl hostname);
                rest = dropWhile (\<lambda>c. c \<in> set hex_digits) (tl hostname)
            in hex \<noteq> [] \<and> startswith rest ''.'' \<and> tl rest \<noteq> [])
      else ipv6_ok hostname)"

subsection \<open>urlsplit, urlparse, urlunparse, urljoin\<close>

text \<open>\<open>urlsplit(url, scheme)\<close>: scheme, authority, path, query and fragment, in this
  order. The second argument is the scheme of a URL that has none.\<close>

definition urlsplit :: "string \<Rightarrow> string \<Rightarrow> error + (string \<times> string \<times> string \<times> string \<times> string)" where
  "urlsplit url0 scheme0 =
     (let url1 = filter (\<lambda>c. \<not> unsafe_url_byte c) (dropWhile c0_control_or_space url0);
          scheme1 = filter (\<lambda>c. \<not> unsafe_url_byte c)
                      (rev (dropWhile c0_control_or_space
                         (rev (dropWhile c0_control_or_space scheme0))));
          has_scheme = (case py_find url1 CHR '':'' of
                          None \<Rightarrow> False
                        | Some i \<Rightarrow> 0 < i \<and> isascii_alpha (hd url1)
                                    \<and> list_all (\<lambda>c. c \<in> set scheme_chars) (take i url1));
          scheme2 = (if has_scheme then py_lower (takeWhile (\<lambda>c. c \<noteq> CHR '':'') url1)
                     else scheme1);
          url2 = (if has_scheme then tl (dropWhile (\<lambda>c. c \<noteq> CHR '':'') url1) else url1);
          has_netloc = (take 2 url2 = ''//'');
          netloc1 = (if has_netloc then takeWhile (\<lambda>c. c \<notin> set ''/?#'') (drop 2 url2) else []);
          url3 = (if has_netloc then dropWhile (\<lambda>c. c \<notin> set ''/?#'') (drop 2 url2) else url2);
          open_br = (CHR ''['' \<in> set netloc1);
          close_br = (CHR '']'' \<in> set netloc1)
      in if open_br \<noteq> close_br then Inl ValueError
         else if open_br \<and> \<not> check_bracketed_host
                   (takeWhile (\<lambda>c. c \<noteq> CHR '']'')
                      (tl (dropWhile (\<lambda>c. c \<noteq> CHR ''['') netloc1)))
         then Inl ValueError
         else (let url4 = takeWhile (\<lambda>c. c \<noteq> CHR ''#'') url3;
                   fragment1 = drop 1 (dropWhile (\<lambda>c. c \<noteq> CHR ''#'') url3);
                   url5 = takeWhile (\<lambda>c. c \<noteq> CHR ''?'') url4;
                   query1 = drop 1 (dropWhile (\<lambda>c. c \<noteq> CHR ''?'') url4)
               in Inr (scheme2, netloc1, url5, query1, fragment1)))"

text \<open>\<open>_splitparams\<close>: the parameters follow the first semicolon of the last path
  segment.\<close>

definition splitparams :: "string \<Rightarrow> string \<times> string" where
  "splitparams url =
     (if CHR ''/'' \<in> set url
      then (let last_seg = rev (takeWhile (\<lambda>c. c \<noteq> CHR ''/'') (rev url));
                k = length url - length last_seg
            in (case py_find last_seg CHR '';'' of
                  None \<Rightarrow> (url, [])
                | Some i \<Rightarrow> (take (k + i) url, drop (k + i + 1) url)))
      else (case py_find url CHR '';'' of
              None \<Rightarrow> (url, [])
            | Some i \<Rightarrow> (take i url, drop (i + 1) url)))"

definition urlparse_scheme :: "string \<Rightarrow> string \<Rightarrow> error + ParseResult" where
  "urlparse_scheme url default_scheme =
     (case urlsplit url default_scheme of
        Inl e \<Rightarrow> Inl e
      | Inr (sch, nl, u, q, f) \<Rightarrow>
          (let (u', p) = (if sch \<in> set uses_params \<and> CHR '';'' \<in> set u
                          then splitparams u else (u, []))
           in Inr \<lparr>scheme = sch, netloc = nl, path = u', params = p, query = q,
                    fragment = f\<rparr>))"

definition urlparse :: "string \<Rightarrow> error + ParseResult" where
  "urlparse url = urlparse_scheme url []"

definition urlunsplit :: "string \<Rightarrow> string \<Rightarrow> string \<Rightarrow> string \<Rightarrow> string \<Rightarrow> string" where
  "urlunsplit sch nl url q f =
     (let url1 = (if nl \<noteq> [] \<or> (sch \<noteq> [] \<and> sch \<in> set uses_netloc) \<or> take 2 url = ''//''
                  then ''//'' @ nl @ (if url \<noteq> [] \<and> take 1 url \<noteq> ''/'' then ''/'' @ url else url)
                  else url);
          url2 = (if sch \<noteq> [] then sch @ '':'' @ url1 else url1);
          url3 = (if q \<noteq> [] then url2 @ ''?'' @ q else url2)
      in if f \<noteq> [] then url3 @ ''#'' @ f else url3)"

definition urlunparse :: "ParseResult \<Rightarrow> string" where
  "urlunparse r =
     urlunsplit (scheme r) (netloc r)
       (if params r \<noteq> [] then path r @ '';'' @ params r else path r) (query r) (fragment r)"

text \<open>The loop of \<open>urljoin\<close> over the path segments: \<open>..\<close> drops the segment before it
  (if there is one), \<open>.\<close> is skipped.\<close>

fun resolve_segments :: "string list \<Rightarrow> string list \<Rightarrow> string list" where
  "resolve_segments resolved [] = resolved"
| "resolve_segments resolved (seg # segs) =
     (if seg = ''..'' then resolve_segments (butlast resolved) segs
      else if seg = ''.'' then resolve_segments resolved segs
      else resolve_segments (resolved @ [seg]) segs)"

definition urljoin :: "string \<Rightarrow> string \<Rightarrow> error + string" where
  "urljoin base url =
     (if base = [] then Inr url
      else if url = [] then Inr base
      else (case urlparse_scheme base [] of
              Inl e \<Rightarrow> Inl e
            | Inr b \<Rightarrow>
               (case urlparse_scheme url (scheme b) of
                  Inl e \<Rightarrow> Inl e
                | Inr u \<Rightarrow>
                   if scheme u \<noteq> scheme b \<or> scheme u \<notin> set uses_relative then Inr url
                   else if scheme u \<in> set uses_netloc \<and> netloc u \<noteq> [] then Inr (urlunparse u)
                   else (let nl = (if scheme u \<in> set uses_netloc then netloc b else netloc u)
                         in if path u = [] \<and> params u = []
                            then Inr (urlunparse (u\<lparr>netloc := nl, path := path b,
                                        params := params b,
                                        query := (if query u = [] then query b else query u)\<rparr>))
                            else (let base_parts = (let bp = py_split CHR ''/'' (path b)
                                                    in if last bp \<noteq> [] then butlast bp else bp);
                                      segments =
                                        (if take 1 (path u) = ''/'' then py_split CHR ''/'' (path u)
                                         else (let segs = base_parts @ py_split CHR ''/'' (path u)
                                               in take 1 segs
                                                  @ filter (\<lambda>s. s \<noteq> []) (butlast (drop 1 segs))
                                                  @ (if 1 < length segs then [last segs] else [])));
                                      resolved0 = resolve_segments [] segments;
                                      resolved = (if last segments \<in> {''.'', ''..''}
                                                  then resolved0 @ [[]] else resolved0);
                                      joined = py_join ''/'' resolved
                                  in Inr (urlunparse (u\<lparr>netloc := nl,
                                            path := (if joined = [] then ''/'' else joined)\<rparr>)))))))"

section \<open>The URL frontier (src/url\_manager.py)\<close>

text \<open>
  \<open>URLManager\<close> holds the queue of URLs to visit (a deque, used first in, first out),
  three sets of URLs and a dictionary of five counters. Every method that takes a URL
  normalises it first, and \<open>_normalize_url\<close> calls \<open>urlparse\<close> outside any
  \<open>try\<close>: such a method raises what the library raises, before it has changed
  anything. The methods therefore return a sum, and an \<open>Inl\<close> carries no manager: the
  manager is as it was. Logging is left out; it does not touch the manager.
\<close>

record stats_t =
  total_found :: int
  visited :: int
  failed :: int
  skipped :: int
  duplicates :: int

record URLManager =
  base_url :: string
  max_pages :: "int option"
  urls_to_visit :: "string list"
  visited_urls :: "string set"
  failed_urls :: "string set"
  skipped_urls :: "string set"
  stats :: stats_t
  domain :: string

definition normalize_url :: "URLManager \<Rightarrow> string \<Rightarrow> error + string" where
  "normalize_url m url0 =
     (if url0 = [] then Inr url0
      else (case (if startswith url0 ''/'' then urljoin (base_url m) url0
                  else if \<not> (startswith url0 ''http://'' \<or> startswith url0 ''https://'')
                  then urljoin (base_url m) url0
                  else Inr url0) of
              Inl e \<Rightarrow> Inl e
            | Inr url \<Rightarrow>
               (case urlparse url of
                  Inl e \<Rightarrow> Inl e
                | Inr parsed \<Rightarrow>
                   (let normalized0 = scheme parsed @ ''://'' @ netloc parsed @ path parsed;
                        normalized = (if query parsed \<noteq> []
                                      then normalized0 @ ''?'' @ query parsed else normalized0)
                    in Inr (if endswith normalized ''/'' \<and> 1 < length (path parsed)
                            then rstrip_chars ''/'' normalized else normalized)))))"

definition skip_extensions :: "string list" where
  "skip_extensions = [''.pdf'', ''.jpg'', ''.jpeg'', ''.png'', ''.gif'', ''.css'', ''.js'',
     ''.xml'', ''.zip'']"

definition skip_paths :: "string list" where
  "skip_paths = [''/api/'', ''/admin/'', ''/login/'', ''/logout/'', ''/search/'']"

text \<open>\<open>should_crawl\<close> wraps its body in \<open>try\<close> and answers \<open>False\<close> on any
  exception.\<close>

definition should_crawl :: "URLManager \<Rightarrow> string \<Rightarrow> bool" where
  "should_crawl m url =
     (if url = [] then False
      else (case urlparse url of
              Inl e \<Rightarrow> False
            | Inr parsed_url \<Rightarrow>
               if scheme parsed_url = [] \<or> netloc parsed_url = [] then False
               else if netloc parsed_url \<noteq> domain m then False
               else if fragment parsed_url \<noteq> [] \<and> path parsed_url = [] then False
               else if list_ex (\<lambda>ext. endswith (py_lower (path parsed_url)) ext) skip_extensions
               then False
               else if list_ex (\<lambda>skip_path. py_in skip_path (py_lower (path parsed_url))) skip_paths
               then False
               else True))"

text \<open>\<open>if self.max_pages and self._stats['total_found'] >= self.max_pages\<close>: no cap
  (\<open>None\<close>) and the cap 0 are both false in Python.\<close>

definition page_limit_reached :: "URLManager \<Rightarrow> bool" where
  "page_limit_reached m =
     (case max_pages m of None \<Rightarrow> False | Some cap \<Rightarrow> cap \<noteq> 0 \<and> cap \<le> total_found (stats m))"

definition add_url :: "URLManager \<Rightarrow> string \<Rightarrow> error + (bool \<times> URLManager)" where
  "add_url m url =
     (if url = [] then Inr (False, m)
      else (case normalize_url m url of
              Inl e \<Rightarrow> Inl e
            | Inr normalized_url \<Rightarrow>
               if \<not> should_crawl m normalized_url then Inr (False, m)
               else if normalized_url \<in> visited_urls m \<or> normalized_url \<in> set (urls_to_visit m)
               then Inr (False, m\<lparr>stats := (stats m)\<lparr>duplicates := duplicates (stats m) + 1\<rparr>\<rparr>)
               else if page_limit_reached m
               then Inr (False, m\<lparr>skipped_urls := insert normalized_url (skipped_urls m),
                                   stats := (stats m)\<lparr>skipped := skipped (stats m) + 1\<rparr>\<rparr>)
               else Inr (True, m\<lparr>urls_to_visit := urls_to_visit m @ [normalized_url],
                                  stats := (stats m)\<lparr>total_found := total_found (stats m) + 1\<rparr>\<rparr>)))"

definition get_next_url :: "URLManager \<Rightarrow> string option \<times> URLManager" where
  "get_next_url m =
     (case urls_to_visit m of
        [] \<Rightarrow> (None, m)
      | url # rest \<Rightarrow> (Some url, m\<lparr>urls_to_visit := rest\<rparr>))"

definition mark_visited :: "URLManager \<Rightarrow> string \<Rightarrow> error + URLManager" where
  "mark_visited m url =
     (case normalize_url m url of
        Inl e \<Rightarrow> Inl e
      | Inr normalized_url \<Rightarrow>
         Inr (m\<lparr>visited_urls := insert normalized_url (visited_urls m),
                 stats := (stats m)\<lparr>visited := visited (stats m) + 1\<rparr>\<rparr>))"

definition mark_failed :: "URLManager \<Rightarrow> string \<Rightarrow> error + URLManager" where
  "mark_failed m url =
     (case normalize_url m url of
        Inl e \<Rightarrow> Inl e
      | Inr normalized_url \<Rightarrow>
         Inr (m\<lparr>failed_urls := insert normalized_url (failed_urls m),
                 stats := (stats m)\<lparr>failed := failed (stats m) + 1\<rparr>\<rparr>))"

text \<open>The constructor strips the slashes at the end of the base URL, takes the domain
  from it and queues it.\<close>

definition URLManager_init :: "string \<Rightarrow> int option \<Rightarrow> error + URLManager" where
  "URLManager_init base cap =
     (case urlparse (rstrip_chars ''/'' base) of
        Inl e \<Rightarrow> Inl e
      | Inr parsed \<Rightarrow>
         map_sum id snd
           (add_url \<lparr>base_url = rstrip_chars ''/'' base, max_pages = cap, urls_to_visit = [],
                     visited_urls = {}, failed_urls = {}, skipped_urls = {},
                     stats = \<lparr>total_found = 0, visited = 0, failed = 0, skipped = 0,
                              duplicates = 0\<rparr>,
                     domain = netloc parsed\<rparr>
              (rstrip_chars ''/'' base)))"

subsection \<open>Sequences of calls\<close>

text \<open>A caller may make the four calls of the frontier in any order and with any
  argument. \<open>call m c\<close> is the manager after the call \<open>c\<close>; a call that raises leaves it
  as it was. \<open>crawl\<close> constructs a manager and makes a list of calls.\<close>

datatype frontier_call = Add string | Next | MarkVisited string | MarkFailed string

fun call :: "URLManager \<Rightarrow> frontier_call \<Rightarrow> URLManager" where
  "call m (Add url) = (case add_url m url of Inl e \<Rightarrow> m | Inr (added, m') \<Rightarrow> m')"
| "call m Next = snd (get_next_url m)"
| "call m (MarkVisited url) = (case mark_visited m url of Inl e \<Rightarrow> m | Inr m' \<Rightarrow> m')"
| "call m (MarkFailed url) = (case mark_failed m url of Inl e \<Rightarrow> m | Inr m' \<Rightarrow> m')"

definition calls :: "URLManager \<Rightarrow> frontier_call list \<Rightarrow> URLManager" where
  "calls m cs = foldl call m cs"

definition crawl :: "string \<Rightarrow> int option \<Rightarrow> frontier_call list \<Rightarrow> error + URLManager" where
  "crawl base cap cs = map_sum id (\<lambda>m. calls m cs) (URLManager_init base cap)"

inductive reachable :: "string \<Rightarrow> int option \<Rightarrow> URLManager \<Rightarrow> bool" where
  constructed: "URLManager_init base cap = Inr m \<Longrightarrow> reachable base cap m"
| called: "reachable base cap m \<Longrightarrow> reachable base cap (call m c)"

subsection \<open>An example frontier\<close>

text \<open>The manager that \<open>URLManager("https://docs.example.com/")\<close> constructs: the
  base URL has lost its slash and is the one queued URL.\<close>

definition docs_manager :: "int option \<Rightarrow> URLManager" where
  "docs_manager cap = \<lparr>base_url = ''https://docs.example.com'', max_pages = cap,
     urls_to_visit = [''https://docs.example.com''], visited_urls = {}, failed_urls = {},
     skipped_urls = {},
     stats = \<lparr>total_found = 1, visited = 0, failed = 0, skipped = 0, duplicates = 0\<rparr>,
     domain = ''docs.example.com''\<rparr>"

text \<open>The states of that frontier under the cap 5, while nothing has been visited or
  has failed: the queue, the set of URLs skipped over the limit, and the two counters
  that go with them.\<close>

definition docs_frontier :: "string list \<Rightarrow> string set \<Rightarrow> int \<Rightarrow> int \<Rightarrow> URLManager" where
  "docs_frontier queue over_limit found over_limit_count =
     (docs_manager (Some 5))\<lparr>urls_to_visit := queue, skipped_urls := over_limit,
        stats := \<lparr>total_found = found, visited = 0, failed = 0, skipped = over_limit_count,
                  duplicates = 0\<rparr>\<rparr>"

text \<open>More states of the example frontier. \<open>docs_queued\<close>: the page \<open>/a\<close> has been
  added after the base URL, without a cap. \<open>docs_full\<close>: under the cap 5, \<open>/a\<close> and
  three more links were added, which reaches the cap, and \<open>get_next_url\<close> has handed out
  the base URL and \<open>/a\<close>. \<open>docs_dropped\<close>: after that, \<open>/settings\<close> was added, and
  skipped over the limit, and \<open>/a\<close> was marked failed. \<open>docs_crawled\<close>: under the cap
  5, the six links of the scenario were added, the base URL was handed out and marked
  visited, and the root URL was handed out and marked failed.\<close>

definition docs_queued :: URLManager where
  "docs_queued = (docs_manager None)
     \<lparr>urls_to_visit := [''https://docs.example.com'', ''https://docs.example.com/a''],
      stats := \<lparr>total_found = 2, visited = 0, failed = 0, skipped = 0, duplicates = 0\<rparr>\<rparr>"

definition docs_full :: URLManager where
  "docs_full = docs_frontier [''https://docs.example.com/'',
     ''https://docs.example.com/getting-started'', ''https://docs.example.com/features'']
     {} 5 0"

definition docs_dropped :: URLManager where
  "docs_dropped = (docs_frontier [''https://docs.example.com/'',
       ''https://docs.example.com/getting-started'', ''https://docs.example.com/features'']
       {''https://docs.example.com/settings''} 5 1)
     \<lparr>failed_urls := {''https://docs.example.com/a''},
      stats := \<lparr>total_found = 5, visited = 0, failed = 1, skipped = 1, duplicates = 0\<rparr>\<rparr>"

definition docs_crawled :: URLManager where
  "docs_crawled = (docs_frontier [''https://docs.example.com/getting-started'',
       ''https://docs.example.com/features'', ''https://docs.example.com/settings'']
       {''https://docs.example.com/blog/extra'', ''https://docs.example.com/troubleshooting''}
       5 2)
     \<lparr>visited_urls := {''https://docs.example.com''},
      failed_urls := {''https://docs.example.com/''},
      stats := \<lparr>total_found = 5, visited = 1, failed = 1, skipped = 2, duplicates = 0\<rparr>\<rparr>"

subsection \<open>Observations\<close>

text \<open>\<open>accepts r u\<close>: the frontier \<open>r\<close> was constructed and \<open>add_url\<close> returns
  \<open>True\<close> for \<open>u\<close>. \<open>url_states m u\<close>: whether \<open>u\<close> is queued, visited, failed,
  skipped over the limit, in this order.\<close>

definition accepts :: "error + URLManager \<Rightarrow> string \<Rightarrow> bool" where
  "accepts r u = (case r of Inl e \<Rightarrow> False
                  | Inr m \<Rightarrow> (case add_url m u of Inl e \<Rightarrow> False | Inr (added, m') \<Rightarrow> added))"

definition url_states :: "URLManager \<Rightarrow> string \<Rightarrow> bool \<times> bool \<times> bool \<times> bool" where
  "url_states m u = (u \<in> set (urls_to_visit m), u \<in> visited_urls m, u \<in> failed_urls m,
                     u \<in> skipped_urls m)"

definition crawl_states :: "string \<Rightarrow> int option \<Rightarrow> frontier_call list \<Rightarrow> string \<Rightarrow> error + (bool \<times> bool \<times> bool \<times> bool)" where
  "crawl_states base cap cs u = map_sum id (\<lambda>m. url_states m u) (crawl base cap cs)"

text \<open>\<open>stays_known n m cs\<close>: in the run of the calls \<open>cs\<close> from the manager \<open>m\<close>, no
  \<open>get_next_url\<close> hands the URL \<open>n\<close> out while \<open>n\<close> is not in the visited set.\<close>

fun stays_known :: "string \<Rightarrow> URLManager \<Rightarrow> frontier_call list \<Rightarrow> bool" where
  "stays_known n m [] = True"
| "stays_known n m (c # cs) =
     ((c = Next \<and> fst (get_next_url m) = Some n \<longrightarrow> n \<in> visited_urls m)
      \<and> stays_known n (call m c) cs)"

text \<open>\<open>puts_back m n c\<close>: the call \<open>c\<close> is an \<open>add_url\<close> or a \<open>mark_visited\<close> with a
  URL that normalises to \<open>n\<close>; no other call can put \<open>n\<close> into the queue or the
  visited set.\<close>

fun puts_back :: "URLManager \<Rightarrow> string \<Rightarrow> frontier_call \<Rightarrow> bool" where
  "puts_back m n (Add u) = (normalize_url m u = Inr n)"
| "puts_back m n (MarkVisited u) = (normalize_url m u = Inr n)"
| "puts_back m n Next = False"
| "puts_back m n (MarkFailed u) = False"

section \<open>Pages (src/models.py)\<close>

text \<open>
  \<open>PageData\<close> is what the crawler fetched, \<open>PageContent\<close> what the parser made of it.
  Both are dataclasses; the fields of \<open>PageData\<close> carry the prefix \<open>pd_\<close> where
  \<open>PageContent\<close> has a field of the same name, and the time stamp \<open>crawled_at\<close>, which
  nothing below reads, is left out.
\<close>

record PageData =
  pd_url :: string
  pd_title :: string
  html_content :: string
  status_code :: int
  links :: "string list"
  pd_final_url :: "string option"

text \<open>\<open>PageData.__post_init__\<close> rejects an empty URL, and an empty body with status
  200, and strips the slashes at the end of the URL.\<close>

definition PageData_post_init :: "PageData \<Rightarrow> error + PageData" where
  "PageData_post_init d =
     (if pd_url d = [] then Inl ValueError
      else if html_content d = [] \<and> status_code d = 200 then Inl ValueError
      else Inr (d\<lparr>pd_url := rstrip_chars ''/'' (pd_url d)\<rparr>))"

record PageContent =
  url :: string
  title :: string
  content_html :: string
  text_content :: string
  images :: "string list"
  order_key :: string
  final_url :: "string option"

text \<open>The loop of \<open>PageContent._generate_order_key\<close> over the path segments, with
  the index of \<open>enumerate\<close>.\<close>

fun PageContent_order_parts :: "nat \<Rightarrow> string list \<Rightarrow> string list" where
  "PageContent_order_parts i [] = []"
| "PageContent_order_parts i (part # parts) =
     (format_03d i @ ''_'' @ py_replace (py_replace part ''.html'' []) ''-'' ''_'')
     # PageContent_order_parts (Suc i) parts"

definition PageContent_generate_order_key :: "PageContent \<Rightarrow> error + string" where
  "PageContent_generate_order_key self =
     (case urlparse (url self) of
        Inl e \<Rightarrow> Inl e
      | Inr parsed \<Rightarrow>
         (let p = strip_chars ''/'' (path parsed)
          in if p = [] \<or> p \<in> set [''index'', ''index.html''] then Inr ''000_index''
             else Inr (py_join ''_'' (PageContent_order_parts 0 (py_split CHR ''/'' p)))))"

definition extract_title_from_url :: "PageContent \<Rightarrow> error + string" where
  "extract_title_from_url self =
     (case urlparse (url self) of
        Inl e \<Rightarrow> Inl e
      | Inr parsed \<Rightarrow>
         (let p = strip_chars ''/'' (path parsed)
          in if p = [] then Inr ''Home''
             else Inr (py_title (py_replace (py_replace (last (py_split CHR ''/'' p))
                                   ''-'' '' '') ''_'' '' ''))))"

text \<open>\<open>PageContent.__post_init__\<close> runs at the end of every construction: it fills an
  empty order key, then an empty title. Either step parses the URL and raises what the
  library raises.\<close>

definition PageContent_post_init :: "PageContent \<Rightarrow> error + PageContent" where
  "PageContent_post_init self =
     (case (if order_key self = []
            then map_sum id (\<lambda>k. self\<lparr>order_key := k\<rparr>) (PageContent_generate_order_key self)
            else Inr self) of
        Inl e \<Rightarrow> Inl e
      | Inr self1 \<Rightarrow>
         if title self1 = []
         then map_sum id (\<lambda>t. self1\<lparr>title := t\<rparr>) (extract_title_from_url self1)
         else Inr self1)"

definition is_valid :: "PageContent \<Rightarrow> bool" where
  "is_valid self = (url self \<noteq> [] \<and> title self \<noteq> []
                    \<and> (content_html self \<noteq> [] \<or> text_content self \<noteq> []))"

section \<open>The page sorter (src/page\_sorter.py)\<close>

text \<open>The loop of \<open>_clean_path_part\<close> that looks for the first character that is
  neither a digit nor an underscore: the number before it without its underscores at the
  end, the text from it on without underscores in front. Without such a character the
  number stays empty.\<close>

definition split_numeric_prefix :: "string \<Rightarrow> string \<times> string" where
  "split_numeric_prefix clean_part =
     (if list_all (\<lambda>c. isdigit c \<or> c = CHR ''_'') clean_part then ([], clean_part)
      else (rstrip_chars ''_'' (takeWhile (\<lambda>c. isdigit c \<or> c = CHR ''_'') clean_part),
            lstrip_chars ''_'' (dropWhile (\<lambda>c. isdigit c \<or> c = CHR ''_'') clean_part)))"

definition clean_path_part :: "string \<Rightarrow> string" where
  "clean_path_part part =
     (if part = [] then ''empty''
      else (let clean_part = py_replace (py_replace (py_replace (py_replace part
                               ''.html'' []) ''.htm'' []) ''-'' ''_'') ''.'' ''_'';
                padded =
                  (if clean_part \<noteq> [] \<and> isdigit (hd clean_part)
                   then (case split_numeric_prefix clean_part of (num_part, text_part) \<Rightarrow>
                           if num_part \<noteq> []
                           then (case py_int num_part of
                                   None \<Rightarrow> clean_part
                                 | Some num \<Rightarrow>
                                     if text_part \<noteq> []
                                     then format_03d (nat num) @ ''_'' @ text_part
                                     else format_03d (nat num))
                           else clean_part)
                   else clean_part)
            in if padded = [] then ''unnamed'' else padded))"

definition priority_pages :: "(string \<times> string) list" where
  "priority_pages =
     [(''getting-started'', ''001_getting_started''),
      (''quickstart'', ''001_quickstart''),
      (''introduction'', ''002_introduction''),
      (''overview'', ''003_overview''),
      (''installation'', ''004_installation''),
      (''setup'', ''005_setup'')]"

fun order_parts :: "nat \<Rightarrow> string list \<Rightarrow> string list" where
  "order_parts i [] = []"
| "order_parts i (part # parts) =
     (format_03d i @ ''_'' @ clean_path_part part) # order_parts (Suc i) parts"

text \<open>\<open>PageSorter.generate_order_key\<close>: the whole body is inside \<open>try\<close>, and the
  handler returns \<open>999_\<close> followed by the URL.\<close>

definition generate_order_key :: "string \<Rightarrow> string" where
  "generate_order_key u =
     (case urlparse u of
        Inl e \<Rightarrow> ''999_'' @ u
      | Inr parsed_url \<Rightarrow>
         (let p = strip_chars ''/'' (path parsed_url)
          in if p = [] \<or> p \<in> set [''index'', ''index.html'', ''home''] then ''000_index''
             else (case map_of priority_pages p of
                     Some k \<Rightarrow> k
                   | None \<Rightarrow> py_join ''_'' (order_parts 0 (py_split CHR ''/'' p)))))"

text \<open>\<open>sort_pages\<close> gives a key to every page without one, then sorts by key;
  \<open>sorted\<close> is stable, as the insertion sort \<open>sort_key\<close> is.\<close>

definition assign_order_key :: "PageContent \<Rightarrow> PageContent" where
  "assign_order_key page =
     (if order_key page = [] then page\<lparr>order_key := generate_order_key (url page)\<rparr> else page)"

definition sort_pages :: "PageContent list \<Rightarrow> PageContent list" where
  "sort_pages pages = sort_key order_key (map assign_order_key pages)"

section \<open>Deduplication in the PDF generator (src/pdf\_generator.py)\<close>

definition check_url :: "PageContent \<Rightarrow> string" where
  "check_url page = (case final_url page of
                       None \<Rightarrow> url page
                     | Some f \<Rightarrow> if f \<noteq> [] then f else url page)"

text \<open>The loop of \<open>_deduplicate_pages\<close>, with its two variables \<open>seen\<close> and
  \<open>deduped\<close>.\<close>

fun deduplicate_loop :: "string set \<Rightarrow> PageContent list \<Rightarrow> PageContent list \<Rightarrow> PageContent list" where
  "deduplicate_loop seen deduped [] = deduped"
| "deduplicate_loop seen deduped (page # pages) =
     (if check_url page \<notin> seen
      then deduplicate_loop (insert (check_url page) seen) (deduped @ [page]) pages
      else deduplicate_loop seen deduped pages)"

definition deduplicate_pages :: "PageContent list \<Rightarrow> PageContent list" where
  "deduplicate_pages pages = deduplicate_loop {} [] pages"

text \<open>The first two steps of \<open>generate_pdf\<close>: deduplicate, then sort.\<close>

definition pages_of_pdf :: "PageContent list \<Rightarrow> PageContent list" where
  "pages_of_pdf pages = sort_pages (deduplicate_pages pages)"

section \<open>The image classifier (src/content\_parser.py)\<close>

text \<open>
  \<open>_is_ui_icon\<close> and \<open>_is_documentation_image\<close> read an image element of the parsed
  page: its \<open>alt\<close>, \<open>width\<close> and \<open>height\<close> attributes (absent, or a string), its
  classes (the parser gives \<open>class\<close> as a list of strings, empty when absent), and
  its ancestors, nearest first, of which the code reads the tag name, the
  \<open>data-name\<close> attribute and the classes.
\<close>

record element =
  tag_name :: string
  data_name :: "string option"
  el_classes :: "string list"

record img_tag =
  alt :: "string option"
  width :: "string option"
  height :: "string option"
  img_classes :: "string list"
  parents :: "element list"

definition doc_image_patterns :: "string list" where
  "doc_image_patterns = [''mintlify.s3'', ''/images/'', ''/screenshots/'', ''/docs/'',
     ''/assets/'', ''documentation'', ''tutorial'', ''guide'', ''example'', ''get-started'']"

definition content_patterns :: "string list" where
  "content_patterns = [''content'', ''article'', ''main'', ''documentation'', ''frame'']"

definition explicit_icon_patterns :: "string list" where
  "explicit_icon_patterns = [''icon'', ''favicon'']"

definition explicit_icon_url_patterns :: "string list" where
  "explicit_icon_url_patterns = [''favicon'', ''/icons/'', ''icon.'', ''app-logo.svg'',
     ''data:image/svg+xml'']"

text \<open>\<open>if width and height: try: w, h = int(width), int(height) ... except (ValueError,
  TypeError): pass\<close>: the two sizes when both attributes are present, not empty, and
  numbers.\<close>

definition declared_size :: "img_tag \<Rightarrow> (int \<times> int) option" where
  "declared_size img =
     (case (width img, height img) of
        (Some w, Some h) \<Rightarrow>
           if w \<noteq> [] \<and> h \<noteq> []
           then (case (py_int w, py_int h) of
                   (Some wi, Some hi) \<Rightarrow> Some (wi, hi)
                 | _ \<Rightarrow> None)
           else None
      | _ \<Rightarrow> None)"

text \<open>\<open>for pattern in doc_image_patterns: if pattern in src_lower: return True\<close>.\<close>

definition matches_doc_image_pattern :: "string \<Rightarrow> bool" where
  "matches_doc_image_pattern src_lower =
     list_ex (\<lambda>pattern. py_in pattern src_lower) doc_image_patterns"

definition is_documentation_image :: "img_tag \<Rightarrow> string \<Rightarrow> bool" where
  "is_documentation_image img src =
     (if py_in ''codebase-indexing'' (py_lower src) then True
      else if list_ex (\<lambda>e. data_name e = Some ''frame'') (parents img) then True
      else if py_strip (case alt img of None \<Rightarrow> [] | Some a \<Rightarrow> a) \<noteq> []
              \<and> 10 < length (py_strip (case alt img of None \<Rightarrow> [] | Some a \<Rightarrow> a))
      then True
      else if py_in ''app-logo.svg'' (py_lower src) then False
      else if matches_doc_image_pattern (py_lower src) then True
      else if (case declared_size img of None \<Rightarrow> False | Some (w, h) \<Rightarrow> 100 < w \<or> 100 < h)
      then True
      else list_ex (\<lambda>parent.
             list_ex (\<lambda>class_name.
               list_ex (\<lambda>pattern. py_in pattern (py_lower class_name)) content_patterns)
               (el_classes parent))
             (takeWhile (\<lambda>parent. tag_name parent \<noteq> ''body'') (parents img)))"

definition is_ui_icon :: "img_tag \<Rightarrow> string \<Rightarrow> bool" where
  "is_ui_icon img src =
     (if is_documentation_image img src then False
      else if (case declared_size img of None \<Rightarrow> False | Some (w, h) \<Rightarrow> w \<le> 24 \<and> h \<le> 24)
      then True
      else if list_ex (\<lambda>class_name.
                list_ex (\<lambda>pattern. py_in pattern (py_lower class_name)) explicit_icon_patterns)
                (img_classes img)
      then True
      else if list_ex (\<lambda>pattern. py_in pattern (py_lower src)) explicit_icon_url_patterns
      then True
      else py_lower (case alt img of None \<Rightarrow> [] | Some a \<Rightarrow> a) \<in> set [''icon'', ''favicon''])"

section \<open>Parsing a page (src/content\_parser.py)\<close>

text \<open>
  \<open>parse_page\<close> runs the HTML parser of the BeautifulSoup library and five stages over
  the parsed tree, inside \<open>try\<close>, and has two fallbacks. What the claim about it
  concerns is which of the three pages comes out when something raises, not what the
  stages do to the tree; the tree is therefore a type variable, and the library's parser
  and the stages are the fields of a record, each a function that returns a tree (or
  a string) or raises. \<open>message\<close> is \<open>str(e)\<close>.
\<close>

record 'soup stages =
  BeautifulSoup :: "string \<Rightarrow> error + 'soup"
  remove_unwanted_elements :: "'soup \<Rightarrow> error + 'soup"
  extract_main_content :: "'soup \<Rightarrow> error + 'soup"
  process_images :: "'soup \<Rightarrow> error + 'soup"
  process_youtube_links :: "'soup \<Rightarrow> error + 'soup"
  extract_text_content :: "'soup \<Rightarrow> error + string"
  extract_image_urls :: "'soup \<Rightarrow> error + string list"
  str_of_soup :: "'soup \<Rightarrow> error + string"
  get_text_strip :: "'soup \<Rightarrow> error + string"
  message :: "error \<Rightarrow> string"

definition and_then :: "error + 'a \<Rightarrow> ('a \<Rightarrow> error + 'b) \<Rightarrow> error + 'b" where
  "and_then r f = (case r of Inl e \<Rightarrow> Inl e | Inr x \<Rightarrow> f x)"

text \<open>The body of the \<open>try\<close>, the first fallback and the last one. Each ends in the
  construction of a \<open>PageContent\<close>, which runs \<open>__post_init__\<close>.\<close>

definition parse_try :: "'soup stages \<Rightarrow> PageData \<Rightarrow> error + PageContent" where
  "parse_try st page_data =
     and_then (BeautifulSoup st (html_content page_data)) (\<lambda>soup.
     and_then (remove_unwanted_elements st soup) (\<lambda>cleaned_soup.
     and_then (extract_main_content st cleaned_soup) (\<lambda>main_content.
     and_then (process_images st main_content) (\<lambda>processed_content.
     and_then (process_youtube_links st processed_content) (\<lambda>final_content.
     and_then (extract_text_content st final_content) (\<lambda>text.
     and_then (extract_image_urls st final_content) (\<lambda>image_urls.
     and_then (str_of_soup st final_content) (\<lambda>html.
       PageContent_post_init
         \<lparr>url = pd_url page_data, title = pd_title page_data, content_html = html,
          text_content = text, images = image_urls, order_key = [],
          final_url = pd_final_url page_data\<rparr>))))))))"

definition parse_fallback :: "'soup stages \<Rightarrow> PageData \<Rightarrow> error + PageContent" where
  "parse_fallback st page_data =
     and_then (BeautifulSoup st (html_content page_data)) (\<lambda>basic_soup.
     and_then (get_text_strip st basic_soup) (\<lambda>full_text.
       PageContent_post_init
         \<lparr>url = pd_url page_data,
          title = (if pd_title page_data \<noteq> [] then pd_title page_data else ''Error Page''),
          content_html = ''<p>Content parsing failed. Raw text preview:</p><pre>''
                         @ take 1000 full_text @ ''</pre>'',
          text_content = take 1000 full_text, images = [], order_key = [],
          final_url = None\<rparr>))"

definition parse_ultimate :: "'soup stages \<Rightarrow> PageData \<Rightarrow> error \<Rightarrow> error + PageContent" where
  "parse_ultimate st page_data e =
     PageContent_post_init
       \<lparr>url = pd_url page_data,
        title = (if pd_title page_data \<noteq> [] then pd_title page_data else ''Error Page''),
        content_html = ''<p>Error parsing content: '' @ message st e @ ''</p>'',
        text_content = ''Error parsing content: '' @ message st e, images = [],
        order_key = [], final_url = None\<rparr>"

definition parse_page :: "'soup stages \<Rightarrow> PageData \<Rightarrow> error + PageContent" where
  "parse_page st page_data =
     (case parse_try st page_data of
        Inr page_content \<Rightarrow> Inr page_content
      | Inl e \<Rightarrow>
         (case parse_fallback st page_data of
            Inr page_content \<Rightarrow> Inr page_content
          | Inl e' \<Rightarrow> parse_ultimate st page_data e))"

text \<open>Stages that never raise and leave the text alone, with the text itself as the
  tree: an instance to run \<open>parse_page\<close> on.\<close>

definition plain_stages :: "string stages" where
  "plain_stages = \<lparr>BeautifulSoup = Inr, remove_unwanted_elements = Inr,
     extract_main_content = Inr, process_images = Inr, process_youtube_links = Inr,
     extract_text_content = Inr, extract_image_urls = (\<lambda>s. Inr []), str_of_soup = Inr,
     get_text_strip = Inr, message = (\<lambda>e. ''ValueError'')\<rparr>"

text \<open>The same stages, but with an image stage that raises.\<close>

definition raising_stages :: "string stages" where
  "raising_stages = plain_stages\<lparr>process_images := (\<lambda>soup. Inl ValueError)\<rparr>"

section \<open>Properties of the frontier\<close>

text \<open>Normalisation reads the base URL only, and the crawl filter the domain only; no
  call changes either, or the cap.\<close>

lemma normalize_url_cong:
  "base_url m' = base_url m \<Longrightarrow> normalize_url m' u = normalize_url m u"
  by (simp only: normalize_url_def)

lemma should_crawl_cong:
  "domain m' = domain m \<Longrightarrow> should_crawl m' u = should_crawl m u"
  by (simp only: should_crawl_def)

lemma call_config:
  "base_url (call m c) = base_url m \<and> domain (call m c) = domain m
   \<and> max_pages (call m c) = max_pages m"
  by (cases c) (auto simp: add_url_def get_next_url_def mark_visited_def mark_failed_def
      split: sum.splits list.splits)

lemma calls_config:
  "base_url (calls m cs) = base_url m \<and> domain (calls m cs) = domain m
   \<and> max_pages (calls m cs) = max_pages m"
  unfolding calls_def
  by (induction cs arbitrary: m) (simp_all add: call_config)

lemma init_config:
  "URLManager_init base cap = Inr m \<Longrightarrow> max_pages m = cap"
  by (auto simp: URLManager_init_def add_url_def split: sum.splits if_splits)

lemma reachable_cap: "reachable base cap m \<Longrightarrow> max_pages m = cap"
  by (induction rule: reachable.induct) (simp_all add: init_config call_config)

text \<open>A run of calls, call by call; no call takes a URL out of the visited, the
  failed or the skipped set; and calls lead from reachable to reachable managers.\<close>

lemma calls_Cons: "calls m (c # cs) = calls (call m c) cs"
  by (simp add: calls_def)

lemma calls_append: "calls m (cs @ ds) = calls (calls m cs) ds"
  by (simp add: calls_def)

lemma call_sets_grow:
  "visited_urls m \<subseteq> visited_urls (call m c) \<and> failed_urls m \<subseteq> failed_urls (call m c)
   \<and> skipped_urls m \<subseteq> skipped_urls (call m c)"
  by (cases c) (auto simp: add_url_def get_next_url_def mark_visited_def mark_failed_def
      split: sum.splits list.splits)

lemma calls_visited_mono: "visited_urls m \<subseteq> visited_urls (calls m cs)"
proof (induction cs arbitrary: m)
  case Nil
  then show ?case by (simp add: calls_def)
next
  case (Cons c cs)
  have "visited_urls m \<subseteq> visited_urls (call m c)" using call_sets_grow [of m c] by simp
  then show ?case using Cons.IH [of "call m c"] unfolding calls_Cons by blast
qed

lemma reachable_calls: "reachable base cap m \<Longrightarrow> reachable base cap (calls m cs)"
proof (induction cs arbitrary: m)
  case Nil
  then show ?case by (simp add: calls_def)
next
  case (Cons c cs)
  have "reachable base cap (call m c)" using Cons.prems by (rule reachable.called)
  then show ?case using Cons.IH [of "call m c"] by (simp only: calls_Cons)
qed

subsection \<open>Evaluation on the example frontier\<close>

text \<open>The URLs of the examples, parsed once each; normalisation and the crawl filter
  are then evaluated from the parsed URLs.\<close>

lemmas parse_defs = urlparse_scheme_def urlsplit_def Let_def unsafe_url_byte_def
  c0_control_or_space_def isascii_alpha_def ascii_lower_def ascii_upper_def scheme_chars_def
  digit_chars_def py_lower_def lower_char_def uses_params_def

lemmas join_defs = normalize_url_def urljoin_def urlparse_def urlunparse_def urlunsplit_def
  uses_relative_def uses_netloc_def endswith_def rstrip_chars_def Let_def

lemmas filter_defs = should_crawl_def urlparse_def skip_extensions_def skip_paths_def
  py_lower_def lower_char_def ascii_lower_def ascii_upper_def endswith_def

lemma parse_docs_base:
  "urlparse_scheme ''https://docs.example.com'' [] = Inr \<lparr>scheme = ''https'', netloc = ''docs.example.com'',
     path = [], params = [], query = [], fragment = []\<rparr>"
  by (simp add: parse_defs)

lemma parse_docs_a_top:
  "urlparse_scheme ''https://docs.example.com/a#top'' [] = Inr \<lparr>scheme = ''https'', netloc = ''docs.example.com'',
     path = ''/a'', params = [], query = [], fragment = ''top''\<rparr>"
  by (simp add: parse_defs)

lemma parse_docs_root:
  "urlparse_scheme ''https://docs.example.com/'' [] = Inr \<lparr>scheme = ''https'', netloc = ''docs.example.com'',
     path = ''/'', params = [], query = [], fragment = []\<rparr>"
  by (simp add: parse_defs)

lemma parse_link_root:
  "urlparse_scheme ''/'' ''https'' = Inr \<lparr>scheme = ''https'', netloc = [],
     path = ''/'', params = [], query = [], fragment = []\<rparr>"
  by (simp add: parse_defs)

lemma parse_docs_getting_started:
  "urlparse_scheme ''https://docs.example.com/getting-started'' [] = Inr \<lparr>scheme = ''https'', netloc = ''docs.example.com'',
     path = ''/getting-started'', params = [], query = [], fragment = []\<rparr>"
  by (simp add: parse_defs)

lemma parse_link_getting_started:
  "urlparse_scheme ''/getting-started'' ''https'' = Inr \<lparr>scheme = ''https'', netloc = [],
     path = ''/getting-started'', params = [], query = [], fragment = []\<rparr>"
  by (simp add: parse_defs)

lemma parse_docs_features:
  "urlparse_scheme ''https://docs.example.com/features'' [] = Inr \<lparr>scheme = ''https'', netloc = ''docs.example.com'',
     path = ''/features'', params = [], query = [], fragment = []\<rparr>"
  by (simp add: parse_defs)

lemma parse_link_features:
  "urlparse_scheme ''/features'' ''https'' = Inr \<lparr>scheme = ''https'', netloc = [],
     path = ''/features'', params = [], query = [], fragment = []\<rparr>"
  by (simp add: parse_defs)

lemma parse_docs_settings:
  "urlparse_scheme ''https://docs.example.com/settings'' [] = Inr \<lparr>scheme = ''https'', netloc = ''docs.example.com'',
     path = ''/settings'', params = [], query = [], fragment = []\<rparr>"
  by (simp add: parse_defs)

lemma parse_link_settings:
  "urlparse_scheme ''/settings'' ''https'' = Inr \<lparr>scheme = ''https'', netloc = [],
     path = ''/settings'', params = [], query = [], fragment = []\<rparr>"
  by (simp add: parse_defs)

lemma parse_docs_troubleshooting:
  "urlparse_scheme ''https://docs.example.com/troubleshooting'' [] = Inr \<lparr>scheme = ''https'', netloc = ''docs.example.com'',
     path = ''/troubleshooting'', params = [], query = [], fragment = []\<rparr>"
  by (simp add: parse_defs)

lemma parse_link_troubleshooting:
  "urlparse_scheme ''/troubleshooting'' ''https'' = Inr \<lparr>scheme = ''https'', netloc = [],
     path = ''/troubleshooting'', params = [], query = [], fragment = []\<rparr>"
  by (simp add: parse_defs)

lemma parse_docs_blog_extra:
  "urlparse_scheme ''https://docs.example.com/blog/extra'' [] = Inr \<lparr>scheme = ''https'', netloc = ''docs.example.com'',
     path = ''/blog/extra'', params = [], query = [], fragment = []\<rparr>"
  by (simp add: parse_defs)

lemma parse_link_blog_extra:
  "urlparse_scheme ''/blog/extra'' ''https'' = Inr \<lparr>scheme = ''https'', netloc = [],
     path = ''/blog/extra'', params = [], query = [], fragment = []\<rparr>"
  by (simp add: parse_defs)

lemma parse_docs_a:
  "urlparse_scheme ''https://docs.example.com/a'' [] = Inr \<lparr>scheme = ''https'', netloc = ''docs.example.com'',
     path = ''/a'', params = [], query = [], fragment = []\<rparr>"
  by (simp add: parse_defs)

lemma normalize_docs_base:
  "base_url m = ''https://docs.example.com'' \<Longrightarrow>
   normalize_url m ''https://docs.example.com'' = Inr ''https://docs.example.com''"
  by (simp add: join_defs parse_docs_base)

lemma normalize_docs_a:
  "base_url m = ''https://docs.example.com'' \<Longrightarrow>
   normalize_url m ''https://docs.example.com/a'' = Inr ''https://docs.example.com/a''"
  by (simp add: join_defs parse_docs_a)

lemma normalize_docs_a_top:
  "base_url m = ''https://docs.example.com'' \<Longrightarrow>
   normalize_url m ''https://docs.example.com/a#top'' = Inr ''https://docs.example.com/a''"
  by (simp add: join_defs parse_docs_a_top)

lemma normalize_docs_root:
  "base_url m = ''https://docs.example.com'' \<Longrightarrow>
   normalize_url m ''/'' = Inr ''https://docs.example.com/''"
  by (simp add: join_defs parse_docs_base parse_link_root parse_docs_root)

lemma normalize_docs_getting_started:
  "base_url m = ''https://docs.example.com'' \<Longrightarrow>
   normalize_url m ''/getting-started'' = Inr ''https://docs.example.com/getting-started''"
  by (simp add: join_defs parse_docs_base parse_link_getting_started parse_docs_getting_started)

lemma normalize_docs_features:
  "base_url m = ''https://docs.example.com'' \<Longrightarrow>
   normalize_url m ''/features'' = Inr ''https://docs.example.com/features''"
  by (simp add: join_defs parse_docs_base parse_link_features parse_docs_features)

lemma normalize_docs_settings:
  "base_url m = ''https://docs.example.com'' \<Longrightarrow>
   normalize_url m ''/settings'' = Inr ''https://docs.example.com/settings''"
  by (simp add: join_defs parse_docs_base parse_link_settings parse_docs_settings)

lemma normalize_docs_troubleshooting:
  "base_url m = ''https://docs.example.com'' \<Longrightarrow>
   normalize_url m ''/troubleshooting'' = Inr ''https://docs.example.com/troubleshooting''"
  by (simp add: join_defs parse_docs_base parse_link_troubleshooting parse_docs_troubleshooting)

lemma normalize_docs_blog_extra:
  "base_url m = ''https://docs.example.com'' \<Longrightarrow>
   normalize_url m ''/blog/extra'' = Inr ''https://docs.example.com/blog/extra''"
  by (simp add: join_defs parse_docs_base parse_link_blog_extra parse_docs_blog_extra)

lemma should_crawl_docs_base:
  "domain m = ''docs.example.com'' \<Longrightarrow> should_crawl m ''https://docs.example.com''"
  by (simp add: filter_defs parse_docs_base)

lemma should_crawl_docs_root:
  "domain m = ''docs.example.com'' \<Longrightarrow> should_crawl m ''https://docs.example.com/''"
  by (simp add: filter_defs parse_docs_root)

lemma should_crawl_docs_getting_started:
  "domain m = ''docs.example.com'' \<Longrightarrow> should_crawl m ''https://docs.example.com/getting-started''"
  by (simp add: filter_defs parse_docs_getting_started)

lemma should_crawl_docs_features:
  "domain m = ''docs.example.com'' \<Longrightarrow> should_crawl m ''https://docs.example.com/features''"
  by (simp add: filter_defs parse_docs_features)

lemma should_crawl_docs_settings:
  "domain m = ''docs.example.com'' \<Longrightarrow> should_crawl m ''https://docs.example.com/settings''"
  by (simp add: filter_defs parse_docs_settings)

lemma should_crawl_docs_troubleshooting:
  "domain m = ''docs.example.com'' \<Longrightarrow> should_crawl m ''https://docs.example.com/troubleshooting''"
  by (simp add: filter_defs parse_docs_troubleshooting)

lemma should_crawl_docs_blog_extra:
  "domain m = ''docs.example.com'' \<Longrightarrow> should_crawl m ''https://docs.example.com/blog/extra''"
  by (simp add: filter_defs parse_docs_blog_extra)

lemma should_crawl_docs_a:
  "domain m = ''docs.example.com'' \<Longrightarrow> should_crawl m ''https://docs.example.com/a''"
  by (simp add: filter_defs parse_docs_a)

lemma init_docs:
  "cap = None \<or> cap = Some 5 \<Longrightarrow>
   URLManager_init ''https://docs.example.com/'' cap = Inr (docs_manager cap)"
  by (auto simp: URLManager_init_def add_url_def page_limit_reached_def docs_manager_def
      rstrip_chars_def urlparse_def parse_docs_base normalize_docs_base should_crawl_docs_base)

lemmas docs_eval = crawl_def calls_def init_docs add_url_def get_next_url_def mark_visited_def
  mark_failed_def page_limit_reached_def docs_manager_def
  normalize_docs_a normalize_docs_a_top normalize_docs_base normalize_docs_root
  normalize_docs_getting_started normalize_docs_features normalize_docs_settings
  normalize_docs_troubleshooting normalize_docs_blog_extra
  should_crawl_docs_a should_crawl_docs_base should_crawl_docs_root
  should_crawl_docs_getting_started should_crawl_docs_features should_crawl_docs_settings
  should_crawl_docs_troubleshooting should_crawl_docs_blog_extra

lemma docs_frontier_config:
  "base_url (docs_frontier q sk tf skc) = ''https://docs.example.com''"
  "domain (docs_frontier q sk tf skc) = ''docs.example.com''"
  by (simp_all add: docs_frontier_def docs_manager_def)

lemma docs_frontier_add:
  assumes "normalize_url (docs_frontier q sk tf skc) u = Inr n"
    and "should_crawl (docs_frontier q sk tf skc) n" and "u \<noteq> []" and "n \<notin> set q"
  shows "call (docs_frontier q sk tf skc) (Add u)
         = (if tf < 5 then docs_frontier (q @ [n]) sk (tf + 1) skc
            else docs_frontier q (insert n sk) tf (skc + 1))"
  using assms
  by (simp add: add_url_def docs_frontier_def docs_manager_def page_limit_reached_def)

lemma docs_frontier_add_a:
  "''https://docs.example.com/a'' \<notin> set q \<Longrightarrow> tf < 5 \<Longrightarrow>
   add_url (docs_frontier q sk tf skc) ''https://docs.example.com/a''
   = Inr (True, docs_frontier (q @ [''https://docs.example.com/a'']) sk (tf + 1) skc)"
  by (simp add: add_url_def docs_frontier_def docs_manager_def page_limit_reached_def
      normalize_docs_a should_crawl_docs_a)

lemma docs_frontier_next:
  "call (docs_frontier (u # q) sk tf skc) Next = docs_frontier q sk tf skc"
  by (simp add: get_next_url_def docs_frontier_def docs_manager_def)

text \<open>The six links of the scenario, added under the cap 5.\<close>

lemma docs_cap_run:
  "calls (docs_frontier [''https://docs.example.com''] {} 1 0)
     [Add ''/'', Add ''/getting-started'', Add ''/features'', Add ''/settings'',
      Add ''/troubleshooting'', Add ''/blog/extra'']
   = docs_frontier [''https://docs.example.com'', ''https://docs.example.com/'',
       ''https://docs.example.com/getting-started'', ''https://docs.example.com/features'',
       ''https://docs.example.com/settings'']
       {''https://docs.example.com/blog/extra'', ''https://docs.example.com/troubleshooting''}
       5 2"
proof -
  have 1: "call (docs_frontier [''https://docs.example.com''] {} 1 0) (Add ''/'')
           = docs_frontier [''https://docs.example.com'', ''https://docs.example.com/''] {} 2 0"
    by (simp add: docs_frontier_add [OF normalize_docs_root should_crawl_docs_root]
        docs_frontier_config del: call.simps)
  have 2: "call (docs_frontier [''https://docs.example.com'', ''https://docs.example.com/'']
                   {} 2 0) (Add ''/getting-started'')
           = docs_frontier [''https://docs.example.com'', ''https://docs.example.com/'',
               ''https://docs.example.com/getting-started''] {} 3 0"
    by (simp add: docs_frontier_add [OF normalize_docs_getting_started
          should_crawl_docs_getting_started] docs_frontier_config del: call.simps)
  have 3: "call (docs_frontier [''https://docs.example.com'', ''https://docs.example.com/'',
               ''https://docs.example.com/getting-started''] {} 3 0) (Add ''/features'')
           = docs_frontier [''https://docs.example.com'', ''https://docs.example.com/'',
               ''https://docs.example.com/getting-started'',
               ''https://docs.example.com/features''] {} 4 0"
    by (simp add: docs_frontier_add [OF normalize_docs_features should_crawl_docs_features]
        docs_frontier_config del: call.simps)
  have 4: "call (docs_frontier [''https://docs.example.com'', ''https://docs.example.com/'',
               ''https://docs.example.com/getting-started'',
               ''https://docs.example.com/features''] {} 4 0) (Add ''/settings'')
           = docs_frontier [''https://docs.example.com'', ''https://docs.example.com/'',
               ''https://docs.example.com/getting-started'',
               ''https://docs.example.com/features'',
               ''https://docs.example.com/settings''] {} 5 0"
    by (simp add: docs_frontier_add [OF normalize_docs_settings should_crawl_docs_settings]
        docs_frontier_config del: call.simps)
  have 5: "call (docs_frontier [''https://docs.example.com'', ''https://docs.example.com/'',
               ''https://docs.example.com/getting-started'',
               ''https://docs.example.com/features'',
               ''https://docs.example.com/settings''] {} 5 0) (Add ''/troubleshooting'')
           = docs_frontier [''https://docs.example.com'', ''https://docs.example.com/'',
               ''https://docs.example.com/getting-started'',
               ''https://docs.example.com/features'',
               ''https://docs.example.com/settings'']
               {''https://docs.example.com/troubleshooting''} 5 1"
    by (simp add: docs_frontier_add [OF normalize_docs_troubleshooting
          should_crawl_docs_troubleshooting] docs_frontier_config del: call.simps)
  have 6: "call (docs_frontier [''https://docs.example.com'', ''https://docs.example.com/'',
               ''https://docs.example.com/getting-started'',
               ''https://docs.example.com/features'',
               ''https://docs.example.com/settings'']
               {''https://docs.example.com/troubleshooting''} 5 1) (Add ''/blog/extra'')
           = docs_frontier [''https://docs.example.com'', ''https://docs.example.com/'',
               ''https://docs.example.com/getting-started'',
               ''https://docs.example.com/features'',
               ''https://docs.example.com/settings'']
               {''https://docs.example.com/blog/extra'',
                ''https://docs.example.com/troubleshooting''} 5 2"
    by (simp add: docs_frontier_add [OF normalize_docs_blog_extra should_crawl_docs_blog_extra]
        docs_frontier_config del: call.simps)
  show ?thesis by (simp add: calls_def 1 2 3 4 5 6 del: call.simps)
qed

subsection \<open>The page cap\<close>

text \<open>The discovered count grows by one exactly when \<open>add_url\<close> queues a URL, which
  it does only below the cap; so with a positive cap it never exceeds the cap. At the
  cap, a new URL that passes the filter goes to the skipped set and is counted there.\<close>

lemma init_total_found:
  "URLManager_init base cap = Inr m \<Longrightarrow> total_found (stats m) \<le> 1"
  by (auto simp: URLManager_init_def add_url_def split: sum.splits if_splits)

lemma call_total_found:
  "total_found (stats (call m c)) = total_found (stats m)
   \<or> (\<not> page_limit_reached m \<and> total_found (stats (call m c)) = total_found (stats m) + 1)"
  by (cases c) (auto simp: add_url_def get_next_url_def mark_visited_def mark_failed_def
      split: sum.splits list.splits)

lemma total_found_le_cap_aux:
  "reachable base capo m \<Longrightarrow> capo = Some cap \<Longrightarrow> 0 < cap \<Longrightarrow> total_found (stats m) \<le> cap"
proof (induction rule: reachable.induct)
  case (constructed base capo m)
  then show ?case using init_total_found [of base capo m] by simp
next
  case (called base capo m c)
  have "max_pages m = Some cap" using called.hyps called.prems by (simp add: reachable_cap)
  then show ?case
    using called.IH called.prems call_total_found [of m c]
    by (auto simp: page_limit_reached_def)
qed

lemma total_found_le_cap:
  "reachable base (Some cap) m \<Longrightarrow> 0 < cap \<Longrightarrow> total_found (stats m) \<le> cap"
  by (rule total_found_le_cap_aux [OF _ refl])

lemma add_url_at_cap:
  assumes "page_limit_reached m" and "u \<noteq> []" and "normalize_url m u = Inr n"
    and "should_crawl m n" and "n \<notin> visited_urls m" and "n \<notin> set (urls_to_visit m)"
  shows "add_url m u = Inr (False, m\<lparr>skipped_urls := insert n (skipped_urls m),
                                      stats := (stats m)\<lparr>skipped := skipped (stats m) + 1\<rparr>\<rparr>)"
  using assms by (simp add: add_url_def)

text \<open>
  Claim C1, the scenario. The constructor has queued the base URL, without its slash,
  before the six links arrive. The first link \<open>/\<close> normalises to the base URL with the
  slash, which is a different string, so it is queued as a second copy of the root page.
  The cap of 5 is then reached after \<open>/settings\<close>, and both \<open>/troubleshooting\<close> and
  \<open>/blog/extra\<close> are skipped: the counters end at 5 discovered and 2 skipped, not 1.
\<close>

theorem cap_scenario_stats:
  "map_sum id stats (crawl ''https://docs.example.com/'' (Some 5)
     [Add ''/'', Add ''/getting-started'', Add ''/features'', Add ''/settings'',
      Add ''/troubleshooting'', Add ''/blog/extra''])
   = Inr \<lparr>total_found = 5, visited = 0, failed = 0, skipped = 2, duplicates = 0\<rparr>"
proof -
  have init: "URLManager_init ''https://docs.example.com/'' (Some 5)
              = Inr (docs_frontier [''https://docs.example.com''] {} 1 0)"
    by (simp add: init_docs docs_frontier_def docs_manager_def)
  show ?thesis
    by (simp add: crawl_def init docs_cap_run) (simp add: docs_frontier_def)
qed

subsection \<open>Marking twice\<close>

text \<open>
  Claim C5, as amended. \<open>mark_visited\<close> and \<open>mark_failed\<close> are idempotent on the sets
  only: a second call with the same URL leaves the queue, the three sets and the other
  counters as the first call left them, and adds one more to the visited (or failed)
  counter. The counters count calls, not URLs.
\<close>

theorem mark_twice_counts_twice:
  "(mark_visited m u = Inr m1 \<longrightarrow>
      mark_visited m1 u = Inr (m1\<lparr>stats := (stats m1)\<lparr>visited := visited (stats m1) + 1\<rparr>\<rparr>))
   \<and> (mark_failed m u = Inr m2 \<longrightarrow>
      mark_failed m2 u = Inr (m2\<lparr>stats := (stats m2)\<lparr>failed := failed (stats m2) + 1\<rparr>\<rparr>))"
proof (intro conjI impI)
  assume "mark_visited m u = Inr m1"
  then obtain c where c: "normalize_url m u = Inr c"
    and m1: "m1 = m\<lparr>visited_urls := insert c (visited_urls m),
                     stats := (stats m)\<lparr>visited := visited (stats m) + 1\<rparr>\<rparr>"
    by (auto simp: mark_visited_def split: sum.splits)
  have "normalize_url m1 u = Inr c"
    using c normalize_url_cong [of m1 m u] by (simp add: m1)
  then show "mark_visited m1 u
      = Inr (m1\<lparr>stats := (stats m1)\<lparr>visited := visited (stats m1) + 1\<rparr>\<rparr>)"
    by (simp add: mark_visited_def m1)
next
  assume "mark_failed m u = Inr m2"
  then obtain c where c: "normalize_url m u = Inr c"
    and m2: "m2 = m\<lparr>failed_urls := insert c (failed_urls m),
                     stats := (stats m)\<lparr>failed := failed (stats m) + 1\<rparr>\<rparr>"
    by (auto simp: mark_failed_def split: sum.splits)
  have "normalize_url m2 u = Inr c"
    using c normalize_url_cong [of m2 m u] by (simp add: m2)
  then show "mark_failed m2 u
      = Inr (m2\<lparr>stats := (stats m2)\<lparr>failed := failed (stats m2) + 1\<rparr>\<rparr>)"
    by (simp add: mark_failed_def m2)
qed

theorem mark_twice_counts_twice_witness:
  "mark_visited (docs_manager None) ''https://docs.example.com/a''
     = Inr ((docs_manager None)\<lparr>visited_urls := {''https://docs.example.com/a''},
              stats := (stats (docs_manager None))\<lparr>visited := 1\<rparr>\<rparr>)
   \<and> mark_visited ((docs_manager None)\<lparr>visited_urls := {''https://docs.example.com/a''},
              stats := (stats (docs_manager None))\<lparr>visited := 1\<rparr>\<rparr>) ''https://docs.example.com/a''
     = Inr ((docs_manager None)\<lparr>visited_urls := {''https://docs.example.com/a''},
              stats := (stats (docs_manager None))\<lparr>visited := 2\<rparr>\<rparr>)
   \<and> mark_failed (docs_manager None) ''https://docs.example.com/a''
     = Inr ((docs_manager None)\<lparr>failed_urls := {''https://docs.example.com/a''},
              stats := (stats (docs_manager None))\<lparr>failed := 1\<rparr>\<rparr>)
   \<and> mark_failed ((docs_manager None)\<lparr>failed_urls := {''https://docs.example.com/a''},
              stats := (stats (docs_manager None))\<lparr>failed := 1\<rparr>\<rparr>) ''https://docs.example.com/a''
     = Inr ((docs_manager None)\<lparr>failed_urls := {''https://docs.example.com/a''},
              stats := (stats (docs_manager None))\<lparr>failed := 2\<rparr>\<rparr>)"
proof -
  have v: "mark_visited (docs_manager None) ''https://docs.example.com/a''
     = Inr ((docs_manager None)\<lparr>visited_urls := {''https://docs.example.com/a''},
              stats := (stats (docs_manager None))\<lparr>visited := 1\<rparr>\<rparr>)"
    by (simp add: mark_visited_def normalize_docs_a docs_manager_def)
  have f: "mark_failed (docs_manager None) ''https://docs.example.com/a''
     = Inr ((docs_manager None)\<lparr>failed_urls := {''https://docs.example.com/a''},
              stats := (stats (docs_manager None))\<lparr>failed := 1\<rparr>\<rparr>)"
    by (simp add: mark_failed_def normalize_docs_a docs_manager_def)
  show ?thesis
    using v f mark_twice_counts_twice [THEN conjunct1, rule_format, OF v]
      mark_twice_counts_twice [THEN conjunct2, rule_format, OF f]
    by (simp add: docs_manager_def)
qed

text \<open>The claim as it was stated, that the second call changes nothing, fails on the
  example frontier: after two calls the visited counter is 2, after one call it is 1.\<close>

theorem mark_visited_twice_counterexample:
  "crawl ''https://docs.example.com/'' None
     [MarkVisited ''https://docs.example.com/a'', MarkVisited ''https://docs.example.com/a'']
   \<noteq> crawl ''https://docs.example.com/'' None [MarkVisited ''https://docs.example.com/a'']"
  by (simp add: docs_eval)

subsection \<open>The states of a URL\<close>

lemma frontier_inv_init:
  assumes "URLManager_init base cap = Inr m"
  shows "distinct (urls_to_visit m) \<and> set (urls_to_visit m) \<inter> skipped_urls m = {}
         \<and> (skipped_urls m \<noteq> {} \<longrightarrow> page_limit_reached m)"
  using assms
  by (auto simp: URLManager_init_def add_url_def page_limit_reached_def
      split: sum.splits if_splits option.splits)

lemma frontier_inv_call:
  assumes "distinct (urls_to_visit m) \<and> set (urls_to_visit m) \<inter> skipped_urls m = {}
         \<and> (skipped_urls m \<noteq> {} \<longrightarrow> page_limit_reached m)"
  shows "distinct (urls_to_visit (call m c))
         \<and> set (urls_to_visit (call m c)) \<inter> skipped_urls (call m c) = {}
         \<and> (skipped_urls (call m c) \<noteq> {} \<longrightarrow> page_limit_reached (call m c))"
proof (cases c)
  case (Add u)
  then show ?thesis using assms
    by (auto simp: add_url_def page_limit_reached_def split: sum.splits option.splits)
next
  case Next
  then show ?thesis using assms
    by (auto simp: get_next_url_def page_limit_reached_def split: list.splits option.splits)
next
  case (MarkVisited u)
  then show ?thesis using assms
    by (auto simp: mark_visited_def page_limit_reached_def split: sum.splits option.splits)
next
  case (MarkFailed u)
  then show ?thesis using assms
    by (auto simp: mark_failed_def page_limit_reached_def split: sum.splits option.splits)
qed

lemma frontier_inv_reachable:
  "reachable base cap m \<Longrightarrow>
     distinct (urls_to_visit m) \<and> set (urls_to_visit m) \<inter> skipped_urls m = {}
     \<and> (skipped_urls m \<noteq> {} \<longrightarrow> page_limit_reached m)"
proof (induction rule: reachable.induct)
  case (constructed base cap m)
  then show ?case by (rule frontier_inv_init)
next
  case (called base cap m c)
  then show ?case by (intro frontier_inv_call)
qed

text \<open>
  Claim C6, as amended. In every state the frontier can reach, no URL is queued twice
  and no URL is both queued and skipped over the limit; no call takes a URL out of the
  visited, the failed or the skipped set, and no call queues a URL that is skipped.
  Nothing relates the visited and the failed set to each other or to the queue.
\<close>

theorem frontier_states:
  assumes "reachable base cap m"
  shows "distinct (urls_to_visit m) \<and> set (urls_to_visit m) \<inter> skipped_urls m = {}
         \<and> (\<forall>c. visited_urls m \<subseteq> visited_urls (call m c)
                \<and> failed_urls m \<subseteq> failed_urls (call m c)
                \<and> skipped_urls m \<subseteq> skipped_urls (call m c)
                \<and> set (urls_to_visit (call m c)) \<inter> skipped_urls m = {})"
proof -
  have inv: "distinct (urls_to_visit m) \<and> set (urls_to_visit m) \<inter> skipped_urls m = {}"
    using frontier_inv_reachable [OF assms] by simp
  have "set (urls_to_visit (call m c)) \<inter> skipped_urls m = {}" for c
  proof -
    have "reachable base cap (call m c)" using assms by (rule reachable.called)
    then have "set (urls_to_visit (call m c)) \<inter> skipped_urls (call m c) = {}"
      using frontier_inv_reachable by blast
    then show ?thesis using call_sets_grow [of m c] by blast
  qed
  then show ?thesis using inv call_sets_grow by blast
qed

text \<open>The theorem on \<open>docs_crawled\<close>, a state with three URLs queued, one visited, one
  failed and two skipped over the limit.\<close>

theorem frontier_states_witness:
  "calls (docs_manager (Some 5))
     [Add ''/'', Add ''/getting-started'', Add ''/features'', Add ''/settings'',
      Add ''/troubleshooting'', Add ''/blog/extra'',
      Next, MarkVisited ''https://docs.example.com'', Next, MarkFailed ''/''] = docs_crawled
   \<and> reachable ''https://docs.example.com/'' (Some 5) docs_crawled
   \<and> urls_to_visit docs_crawled
       = [''https://docs.example.com/getting-started'', ''https://docs.example.com/features'',
          ''https://docs.example.com/settings'']
   \<and> visited_urls docs_crawled = {''https://docs.example.com''}
   \<and> failed_urls docs_crawled = {''https://docs.example.com/''}
   \<and> skipped_urls docs_crawled
       = {''https://docs.example.com/blog/extra'', ''https://docs.example.com/troubleshooting''}
   \<and> distinct (urls_to_visit docs_crawled)
   \<and> set (urls_to_visit docs_crawled) \<inter> skipped_urls docs_crawled = {}
   \<and> (\<forall>c. visited_urls docs_crawled \<subseteq> visited_urls (call docs_crawled c)
          \<and> failed_urls docs_crawled \<subseteq> failed_urls (call docs_crawled c)
          \<and> skipped_urls docs_crawled \<subseteq> skipped_urls (call docs_crawled c)
          \<and> set (urls_to_visit (call docs_crawled c)) \<inter> skipped_urls docs_crawled = {})"
proof -
  have start: "docs_manager (Some 5) = docs_frontier [''https://docs.example.com''] {} 1 0"
    by (simp add: docs_frontier_def docs_manager_def)
  have tail: "calls (docs_frontier [''https://docs.example.com'', ''https://docs.example.com/'',
                 ''https://docs.example.com/getting-started'',
                 ''https://docs.example.com/features'', ''https://docs.example.com/settings'']
                 {''https://docs.example.com/blog/extra'',
                  ''https://docs.example.com/troubleshooting''} 5 2)
                [Next, MarkVisited ''https://docs.example.com'', Next, MarkFailed ''/'']
              = docs_crawled"
    by (simp add: calls_def get_next_url_def mark_visited_def mark_failed_def
        normalize_docs_base normalize_docs_root docs_frontier_def docs_manager_def
        docs_crawled_def)
  have run: "calls (docs_manager (Some 5))
        ([Add ''/'', Add ''/getting-started'', Add ''/features'', Add ''/settings'',
          Add ''/troubleshooting'', Add ''/blog/extra'']
         @ [Next, MarkVisited ''https://docs.example.com'', Next, MarkFailed ''/''])
        = docs_crawled"
    by (simp only: calls_append start docs_cap_run tail)
  have "reachable ''https://docs.example.com/'' (Some 5) (docs_manager (Some 5))"
    by (rule reachable.constructed) (simp add: init_docs)
  then have r: "reachable ''https://docs.example.com/'' (Some 5) docs_crawled"
    using reachable_calls [of _ _ "docs_manager (Some 5)"] run by metis
  have fields: "urls_to_visit docs_crawled
       = [''https://docs.example.com/getting-started'', ''https://docs.example.com/features'',
          ''https://docs.example.com/settings'']"
    "visited_urls docs_crawled = {''https://docs.example.com''}"
    "failed_urls docs_crawled = {''https://docs.example.com/''}"
    "skipped_urls docs_crawled
       = {''https://docs.example.com/blog/extra'', ''https://docs.example.com/troubleshooting''}"
    by (simp_all add: docs_crawled_def docs_frontier_def docs_manager_def)
  have run': "calls (docs_manager (Some 5))
     [Add ''/'', Add ''/getting-started'', Add ''/features'', Add ''/settings'',
      Add ''/troubleshooting'', Add ''/blog/extra'',
      Next, MarkVisited ''https://docs.example.com'', Next, MarkFailed ''/''] = docs_crawled"
    using run by simp
  show ?thesis
    using frontier_states [OF r] r run' fields by (intro conjI) simp_all
qed

text \<open>The claim as it was stated fails twice over on the example frontier: a URL
  marked visited and then failed is in both sets; and a URL that was handed out, marked
  failed and added again is queued and failed at once.\<close>

theorem frontier_states_counterexample:
  "crawl_states ''https://docs.example.com/'' None
     [MarkVisited ''https://docs.example.com/a'', MarkFailed ''https://docs.example.com/a'']
     ''https://docs.example.com/a'' = Inr (False, True, True, False)
   \<and> crawl_states ''https://docs.example.com/'' None
     [Next, MarkFailed ''https://docs.example.com'', Add ''https://docs.example.com'']
     ''https://docs.example.com'' = Inr (True, False, True, False)"
  by (simp add: crawl_states_def url_states_def docs_eval)

subsection \<open>Duplicates\<close>

lemma should_crawl_nonempty: "should_crawl m n \<Longrightarrow> n \<noteq> []"
  by (auto simp: should_crawl_def)

lemma add_url_accepted:
  assumes "add_url m a = Inr (True, m1)" and "normalize_url m a = Inr n"
  shows "should_crawl m n \<and> n \<in> set (urls_to_visit m1)
         \<and> base_url m1 = base_url m \<and> domain m1 = domain m"
  using assms by (auto simp: add_url_def split: if_splits)

lemma known_call:
  assumes "n \<in> visited_urls m \<or> n \<in> set (urls_to_visit m)"
    and "c = Next \<longrightarrow> n \<in> visited_urls m \<or> n \<in> set (tl (urls_to_visit m))"
  shows "n \<in> visited_urls (call m c) \<or> n \<in> set (urls_to_visit (call m c))"
  using assms
  by (cases c) (auto simp: add_url_def get_next_url_def mark_visited_def mark_failed_def
      split: sum.splits list.splits)

lemma known_step:
  assumes "n \<in> visited_urls m \<or> n \<in> set (urls_to_visit m)"
    and "c = Next \<and> fst (get_next_url m) = Some n \<longrightarrow> n \<in> visited_urls m"
  shows "n \<in> visited_urls (call m c) \<or> n \<in> set (urls_to_visit (call m c))"
proof (rule known_call [OF assms(1)], rule impI)
  assume c: "c = Next"
  show "n \<in> visited_urls m \<or> n \<in> set (tl (urls_to_visit m))"
  proof (cases "n \<in> visited_urls m")
    case True
    then show ?thesis by simp
  next
    case False
    then have q: "n \<in> set (urls_to_visit m)" using assms(1) by simp
    have "fst (get_next_url m) \<noteq> Some n" using assms(2) c False by blast
    then have "hd (urls_to_visit m) \<noteq> n"
      using q by (cases "urls_to_visit m") (auto simp: get_next_url_def)
    then show ?thesis using q by (cases "urls_to_visit m") auto
  qed
qed

lemma stays_known_calls:
  "stays_known n m cs \<Longrightarrow> n \<in> visited_urls m \<or> n \<in> set (urls_to_visit m) \<Longrightarrow>
   n \<in> visited_urls (calls m cs) \<or> n \<in> set (urls_to_visit (calls m cs))"
proof (induction cs arbitrary: m)
  case Nil
  then show ?case by (simp add: calls_def)
next
  case (Cons c cs)
  have "n \<in> visited_urls (call m c) \<or> n \<in> set (urls_to_visit (call m c))"
    using Cons.prems by (intro known_step) simp_all
  moreover have "stays_known n (call m c) cs" using Cons.prems(1) by simp
  ultimately show ?case using Cons.IH [of "call m c"] by (simp only: calls_Cons)
qed

lemma visited_after_mark:
  "MarkVisited u \<in> set cs \<Longrightarrow> normalize_url m u = Inr n \<Longrightarrow> n \<in> visited_urls (calls m cs)"
proof (induction cs arbitrary: m)
  case Nil
  then show ?case by simp
next
  case (Cons c cs)
  show ?case
  proof (cases "c = MarkVisited u")
    case True
    then have "n \<in> visited_urls (call m c)"
      using Cons.prems(2) by (simp add: mark_visited_def)
    then show ?thesis using calls_visited_mono [of "call m c" cs] unfolding calls_Cons by blast
  next
    case False
    then have "MarkVisited u \<in> set cs" using Cons.prems(1) by simp
    moreover have "normalize_url (call m c) u = Inr n"
      using Cons.prems(2) normalize_url_cong [of "call m c" m u] call_config [of m c] by simp
    ultimately show ?thesis using Cons.IH [of "call m c"] by (simp only: calls_Cons)
  qed
qed

lemma add_url_outcome:
  assumes "b \<noteq> []" and "normalize_url m b = Inr n" and "should_crawl m n"
  shows "add_url m b =
     (if n \<in> visited_urls m \<or> n \<in> set (urls_to_visit m)
      then Inr (False, m\<lparr>stats := (stats m)\<lparr>duplicates := duplicates (stats m) + 1\<rparr>\<rparr>)
      else if page_limit_reached m
      then Inr (False, m\<lparr>skipped_urls := insert n (skipped_urls m),
                          stats := (stats m)\<lparr>skipped := skipped (stats m) + 1\<rparr>\<rparr>)
      else Inr (True, m\<lparr>urls_to_visit := urls_to_visit m @ [n],
                         stats := (stats m)\<lparr>total_found := total_found (stats m) + 1\<rparr>\<rparr>))"
  using assms by (simp add: add_url_def)

lemma unknown_call:
  assumes "n \<notin> visited_urls m" and "n \<notin> set (urls_to_visit m)"
    and "\<not> puts_back m n c"
  shows "n \<notin> visited_urls (call m c) \<and> n \<notin> set (urls_to_visit (call m c))"
proof (cases c)
  case (Add u)
  then show ?thesis using assms
    by (auto simp: add_url_def split: sum.splits if_splits)
next
  case Next
  then show ?thesis using assms
    by (auto simp: get_next_url_def split: list.splits)
next
  case (MarkVisited u)
  then show ?thesis using assms
    by (auto simp: mark_visited_def split: sum.splits)
next
  case (MarkFailed u)
  then show ?thesis using assms
    by (auto simp: mark_failed_def split: sum.splits)
qed

lemma puts_back_cong: "base_url m' = base_url m \<Longrightarrow> puts_back m' n c = puts_back m n c"
  by (cases c) (simp_all add: normalize_url_cong [of m' m])

lemma unknown_calls:
  "n \<notin> visited_urls m \<Longrightarrow> n \<notin> set (urls_to_visit m) \<Longrightarrow>
   list_all (\<lambda>c. \<not> puts_back m n c) cs \<Longrightarrow>
   n \<notin> visited_urls (calls m cs) \<and> n \<notin> set (urls_to_visit (calls m cs))"
proof (induction cs arbitrary: m)
  case Nil
  then show ?case by (simp add: calls_def)
next
  case (Cons c cs)
  have step: "n \<notin> visited_urls (call m c) \<and> n \<notin> set (urls_to_visit (call m c))"
    using Cons.prems by (intro unknown_call) simp_all
  have rest: "list_all (\<lambda>c'. \<not> puts_back (call m c) n c') cs"
    using Cons.prems(3) puts_back_cong [of "call m c" m n] call_config [of m c] by simp
  from step have a: "n \<notin> visited_urls (call m c)" and b: "n \<notin> set (urls_to_visit (call m c))"
    by simp_all
  show ?case unfolding calls_Cons by (rule Cons.IH [OF a b rest])
qed

lemma handed_out_unknown:
  assumes "distinct (urls_to_visit m)" and "fst (get_next_url m) = Some n"
    and "n \<notin> visited_urls m"
  shows "n \<notin> visited_urls (call m Next) \<and> n \<notin> set (urls_to_visit (call m Next))"
  using assms by (cases "urls_to_visit m") (auto simp: get_next_url_def)

text \<open>
  Claim C2, as amended. \<open>add_url\<close> looks for the normalised URL in the queue and in the
  visited set, nowhere else. Let \<open>a\<close> and \<open>b\<close> normalise to the same URL and \<open>a\<close> be
  accepted. After every run of calls in which \<open>get_next_url\<close> does not hand that URL
  out before it is marked visited, and after every run that marks it visited at all,
  \<open>add_url\<close> returns \<open>False\<close> for \<open>b\<close> and counts one duplicate. After a run of a
  constructed frontier in which \<open>get_next_url\<close> hands the URL out while it is not marked
  visited, and no \<open>add_url\<close> and no \<open>mark_visited\<close> of it follows (it may be marked
  failed), \<open>add_url\<close> treats \<open>b\<close> as a new URL: at the cap it is skipped and counted
  as skipped, below the cap it is queued again and \<open>add_url\<close> returns \<open>True\<close>.
\<close>

theorem add_url_duplicate:
  assumes "normalize_url m a = Inr n" and "normalize_url m b = Inr n"
    and "add_url m a = Inr (True, m1)"
  shows "(stays_known n m1 cs \<or> (\<exists>u. MarkVisited u \<in> set cs \<and> normalize_url m u = Inr n) \<longrightarrow>
            add_url (calls m1 cs) b
            = Inr (False, (calls m1 cs)\<lparr>stats := (stats (calls m1 cs))
                     \<lparr>duplicates := duplicates (stats (calls m1 cs)) + 1\<rparr>\<rparr>))
       \<and> (reachable base cap m \<and> cs = cs1 @ Next # cs2
           \<and> fst (get_next_url (calls m1 cs1)) = Some n \<and> n \<notin> visited_urls (calls m1 cs1)
           \<and> list_all (\<lambda>c. \<not> puts_back m n c) cs2 \<longrightarrow>
            add_url (calls m1 cs) b
            = (if page_limit_reached (calls m1 cs)
               then Inr (False, (calls m1 cs)
                      \<lparr>skipped_urls := insert n (skipped_urls (calls m1 cs)),
                       stats := (stats (calls m1 cs))
                         \<lparr>skipped := skipped (stats (calls m1 cs)) + 1\<rparr>\<rparr>)
               else Inr (True, (calls m1 cs)
                      \<lparr>urls_to_visit := urls_to_visit (calls m1 cs) @ [n],
                       stats := (stats (calls m1 cs))
                         \<lparr>total_found := total_found (stats (calls m1 cs)) + 1\<rparr>\<rparr>)))"
proof -
  have acc: "should_crawl m n" "n \<in> set (urls_to_visit m1)" "base_url m1 = base_url m"
    "domain m1 = domain m"
    using add_url_accepted [OF assms(3) assms(1)] by simp_all
  have "n \<noteq> []" using acc(1) by (rule should_crawl_nonempty)
  then have b: "b \<noteq> []" using assms(2) by (auto simp: normalize_url_def)
  have "base_url (calls m1 cs) = base_url m" "domain (calls m1 cs) = domain m"
    using calls_config [of m1 cs] acc by simp_all
  then have "normalize_url (calls m1 cs) b = Inr n" "should_crawl (calls m1 cs) n"
    using assms(2) acc(1) normalize_url_cong [of "calls m1 cs" m b]
      should_crawl_cong [of "calls m1 cs" m n] by simp_all
  note outcome = add_url_outcome [OF b this]
  have kept: "n \<in> visited_urls (calls m1 cs) \<or> n \<in> set (urls_to_visit (calls m1 cs))"
    if "stays_known n m1 cs"
    using that acc(2) by (intro stays_known_calls) simp_all
  have marked: "n \<in> visited_urls (calls m1 cs)"
    if "MarkVisited u \<in> set cs" and "normalize_url m u = Inr n" for u
  proof -
    have "normalize_url m1 u = Inr n"
      using that(2) acc(3) normalize_url_cong [of m1 m u] by simp
    then show ?thesis using that(1) by (rule visited_after_mark [rotated])
  qed
  have dropped: "n \<notin> visited_urls (calls m1 cs) \<and> n \<notin> set (urls_to_visit (calls m1 cs))"
    if r: "reachable base cap m" and cs: "cs = cs1 @ Next # cs2"
      and out: "fst (get_next_url (calls m1 cs1)) = Some n"
      and unvisited: "n \<notin> visited_urls (calls m1 cs1)"
      and rest: "list_all (\<lambda>c. \<not> puts_back m n c) cs2"
  proof -
    have "call m (Add a) = m1" using assms(3) by simp
    then have "reachable base cap m1" using reachable.called [OF r, of "Add a"] by simp
    then have "reachable base cap (calls m1 cs1)" by (rule reachable_calls)
    then have "distinct (urls_to_visit (calls m1 cs1))"
      using frontier_inv_reachable by blast
    then have gone: "n \<notin> visited_urls (call (calls m1 cs1) Next)
                     \<and> n \<notin> set (urls_to_visit (call (calls m1 cs1) Next))"
      using out unvisited by (intro handed_out_unknown) simp_all
    have "base_url (call (calls m1 cs1) Next) = base_url m"
      using call_config [of "calls m1 cs1" Next] calls_config [of m1 cs1] acc(3) by simp
    then have "list_all (\<lambda>c. \<not> puts_back (call (calls m1 cs1) Next) n c) cs2"
      using rest puts_back_cong [of "call (calls m1 cs1) Next" m n] by simp
    then have "n \<notin> visited_urls (calls (call (calls m1 cs1) Next) cs2)
               \<and> n \<notin> set (urls_to_visit (calls (call (calls m1 cs1) Next) cs2))"
      using gone by (intro unknown_calls) simp_all
    moreover have "calls m1 cs = calls (call (calls m1 cs1) Next) cs2"
      by (simp only: cs calls_append calls_Cons)
    ultimately show ?thesis by simp
  qed
  show ?thesis using outcome kept marked dropped by auto
qed

text \<open>Two runs on the example frontier. Without a cap, \<open>/a\<close> is added, the base URL is
  handed out, \<open>/a\<close> is marked visited and then handed out: \<open>/a#top\<close> is a duplicate.
  Under the cap 5, \<open>/a\<close> and three more links are added, \<open>/a\<close> is handed out without
  being marked visited, \<open>/settings\<close> is added and \<open>/a\<close> is marked failed: \<open>/a#top\<close>
  is not found, and is skipped over the limit.\<close>

theorem add_url_duplicate_witness:
  "add_url (docs_manager None) ''https://docs.example.com/a'' = Inr (True, docs_queued)
   \<and> stays_known ''https://docs.example.com/a'' docs_queued
        [Next, MarkVisited ''https://docs.example.com/a'', Next]
   \<and> add_url (calls docs_queued [Next, MarkVisited ''https://docs.example.com/a'', Next])
        ''https://docs.example.com/a#top''
     = Inr (False, (docs_manager None)
          \<lparr>urls_to_visit := [], visited_urls := {''https://docs.example.com/a''},
           stats := \<lparr>total_found = 2, visited = 1, failed = 0, skipped = 0,
                     duplicates = 1\<rparr>\<rparr>)
   \<and> reachable ''https://docs.example.com/'' (Some 5) (docs_manager (Some 5))
   \<and> add_url (docs_manager (Some 5)) ''https://docs.example.com/a''
     = Inr (True, docs_frontier [''https://docs.example.com'', ''https://docs.example.com/a'']
                    {} 2 0)
   \<and> get_next_url (calls (docs_frontier [''https://docs.example.com'',
                              ''https://docs.example.com/a''] {} 2 0)
        [Add ''/'', Add ''/getting-started'', Add ''/features'', Next])
     = (Some ''https://docs.example.com/a'', docs_full)
   \<and> calls (docs_frontier [''https://docs.example.com'', ''https://docs.example.com/a''] {} 2 0)
        ([Add ''/'', Add ''/getting-started'', Add ''/features'', Next]
         @ Next # [Add ''/settings'', MarkFailed ''https://docs.example.com/a''])
     = docs_dropped
   \<and> add_url docs_dropped ''https://docs.example.com/a#top''
     = Inr (False, docs_dropped
          \<lparr>skipped_urls := {''https://docs.example.com/a'',
                            ''https://docs.example.com/settings''},
           stats := \<lparr>total_found = 5, visited = 0, failed = 1, skipped = 2,
                     duplicates = 0\<rparr>\<rparr>)"
proof -
  have n1: "normalize_url (docs_manager None) ''https://docs.example.com/a''
            = Inr ''https://docs.example.com/a''"
    by (simp add: normalize_docs_a docs_manager_def)
  have n2: "normalize_url (docs_manager None) ''https://docs.example.com/a#top''
            = Inr ''https://docs.example.com/a''"
    by (simp add: normalize_docs_a_top docs_manager_def)
  have a: "add_url (docs_manager None) ''https://docs.example.com/a'' = Inr (True, docs_queued)"
    by (simp add: docs_eval docs_queued_def)
  have run: "calls docs_queued [Next, MarkVisited ''https://docs.example.com/a'', Next]
             = (docs_manager None)
                 \<lparr>urls_to_visit := [], visited_urls := {''https://docs.example.com/a''},
                  stats := \<lparr>total_found = 2, visited = 1, failed = 0, skipped = 0,
                            duplicates = 0\<rparr>\<rparr>"
    by (simp add: calls_def get_next_url_def mark_visited_def normalize_docs_a docs_manager_def
        docs_queued_def)
  have k: "stays_known ''https://docs.example.com/a'' docs_queued
             [Next, MarkVisited ''https://docs.example.com/a'', Next]"
    by (simp add: get_next_url_def mark_visited_def normalize_docs_a docs_manager_def
        docs_queued_def)
  have first: "add_url (calls docs_queued [Next, MarkVisited ''https://docs.example.com/a'', Next])
        ''https://docs.example.com/a#top''
     = Inr (False, (docs_manager None)
          \<lparr>urls_to_visit := [], visited_urls := {''https://docs.example.com/a''},
           stats := \<lparr>total_found = 2, visited = 1, failed = 0, skipped = 0,
                     duplicates = 1\<rparr>\<rparr>)"
    using add_url_duplicate [OF n1 n2 a,
        where cs = "[Next, MarkVisited ''https://docs.example.com/a'', Next]"] k
    by (simp only: run) simp
  have start: "docs_manager (Some 5) = docs_frontier [''https://docs.example.com''] {} 1 0"
    by (simp add: docs_frontier_def docs_manager_def)
  have r: "reachable ''https://docs.example.com/'' (Some 5) (docs_manager (Some 5))"
    by (rule reachable.constructed) (simp add: init_docs)
  have c1: "normalize_url (docs_manager (Some 5)) ''https://docs.example.com/a''
            = Inr ''https://docs.example.com/a''"
    by (simp add: normalize_docs_a docs_manager_def)
  have c2: "normalize_url (docs_manager (Some 5)) ''https://docs.example.com/a#top''
            = Inr ''https://docs.example.com/a''"
    by (simp add: normalize_docs_a_top docs_manager_def)
  have ca: "add_url (docs_manager (Some 5)) ''https://docs.example.com/a''
            = Inr (True, docs_frontier [''https://docs.example.com'',
                           ''https://docs.example.com/a''] {} 2 0)"
    using docs_frontier_add_a [of "[''https://docs.example.com'']" 1 "{}" 0]
    by (simp add: start)
  have s1: "call (docs_frontier [''https://docs.example.com'', ''https://docs.example.com/a'']
                    {} 2 0) (Add ''/'')
            = docs_frontier [''https://docs.example.com'', ''https://docs.example.com/a'',
                ''https://docs.example.com/''] {} 3 0"
    by (simp add: docs_frontier_add [OF normalize_docs_root should_crawl_docs_root]
        docs_frontier_config del: call.simps)
  have s2: "call (docs_frontier [''https://docs.example.com'', ''https://docs.example.com/a'',
                ''https://docs.example.com/''] {} 3 0) (Add ''/getting-started'')
            = docs_frontier [''https://docs.example.com'', ''https://docs.example.com/a'',
                ''https://docs.example.com/'', ''https://docs.example.com/getting-started'']
                {} 4 0"
    by (simp add: docs_frontier_add [OF normalize_docs_getting_started
          should_crawl_docs_getting_started] docs_frontier_config del: call.simps)
  have s3: "call (docs_frontier [''https://docs.example.com'', ''https://docs.example.com/a'',
                ''https://docs.example.com/'', ''https://docs.example.com/getting-started'']
                {} 4 0) (Add ''/features'')
            = docs_frontier [''https://docs.example.com'', ''https://docs.example.com/a'',
                ''https://docs.example.com/'', ''https://docs.example.com/getting-started'',
                ''https://docs.example.com/features''] {} 5 0"
    by (simp add: docs_frontier_add [OF normalize_docs_features should_crawl_docs_features]
        docs_frontier_config del: call.simps)
  have run1: "calls (docs_frontier [''https://docs.example.com'',
                       ''https://docs.example.com/a''] {} 2 0)
                [Add ''/'', Add ''/getting-started'', Add ''/features'', Next]
              = docs_frontier [''https://docs.example.com/a'', ''https://docs.example.com/'',
                  ''https://docs.example.com/getting-started'',
                  ''https://docs.example.com/features''] {} 5 0"
    by (simp add: calls_def s1 s2 s3 docs_frontier_next del: call.simps)
  have out: "get_next_url (docs_frontier [''https://docs.example.com/a'',
                  ''https://docs.example.com/'', ''https://docs.example.com/getting-started'',
                  ''https://docs.example.com/features''] {} 5 0)
             = (Some ''https://docs.example.com/a'', docs_full)"
    by (simp add: get_next_url_def docs_full_def docs_frontier_def docs_manager_def)
  have unvisited: "''https://docs.example.com/a''
                   \<notin> visited_urls (docs_frontier [''https://docs.example.com/a'',
                         ''https://docs.example.com/'',
                         ''https://docs.example.com/getting-started'',
                         ''https://docs.example.com/features''] {} 5 0)"
    by (simp add: docs_frontier_def docs_manager_def)
  have s4: "call (docs_frontier [''https://docs.example.com/'',
                ''https://docs.example.com/getting-started'',
                ''https://docs.example.com/features''] {} 5 0) (Add ''/settings'')
            = docs_frontier [''https://docs.example.com/'',
                ''https://docs.example.com/getting-started'',
                ''https://docs.example.com/features'']
                {''https://docs.example.com/settings''} 5 1"
    by (simp add: docs_frontier_add [OF normalize_docs_settings should_crawl_docs_settings]
        docs_frontier_config del: call.simps)
  have s5: "call (docs_frontier [''https://docs.example.com/'',
                ''https://docs.example.com/getting-started'',
                ''https://docs.example.com/features'']
                {''https://docs.example.com/settings''} 5 1)
              (MarkFailed ''https://docs.example.com/a'')
            = docs_dropped"
    by (simp add: mark_failed_def normalize_docs_a docs_dropped_def docs_frontier_def
        docs_manager_def)
  have run2: "calls docs_full [Add ''/settings'', MarkFailed ''https://docs.example.com/a'']
              = docs_dropped"
    by (simp add: calls_def docs_full_def s4 s5 del: call.simps)
  have next_full: "call (docs_frontier [''https://docs.example.com/a'',
                  ''https://docs.example.com/'', ''https://docs.example.com/getting-started'',
                  ''https://docs.example.com/features''] {} 5 0) Next = docs_full"
    by (simp add: docs_frontier_next docs_full_def del: call.simps)
  have whole: "calls (docs_frontier [''https://docs.example.com'',
                        ''https://docs.example.com/a''] {} 2 0)
        ([Add ''/'', Add ''/getting-started'', Add ''/features'', Next]
         @ Next # [Add ''/settings'', MarkFailed ''https://docs.example.com/a''])
     = docs_dropped"
    by (simp only: calls_append run1 calls_Cons [of _ Next] next_full run2)
  have rest: "list_all (\<lambda>c. \<not> puts_back (docs_manager (Some 5)) ''https://docs.example.com/a'' c)
                [Add ''/settings'', MarkFailed ''https://docs.example.com/a'']"
    by (simp add: normalize_docs_settings docs_manager_def)
  have limit: "page_limit_reached docs_dropped"
    by (simp add: docs_dropped_def docs_frontier_def docs_manager_def page_limit_reached_def)
  have second: "add_url docs_dropped ''https://docs.example.com/a#top''
     = Inr (False, docs_dropped
          \<lparr>skipped_urls := {''https://docs.example.com/a'',
                            ''https://docs.example.com/settings''},
           stats := \<lparr>total_found = 5, visited = 0, failed = 1, skipped = 2,
                     duplicates = 0\<rparr>\<rparr>)"
    using add_url_duplicate [OF c1 c2 ca,
        where base = "''https://docs.example.com/''" and cap = "Some 5"
          and cs = "[Add ''/'', Add ''/getting-started'', Add ''/features'', Next]
                    @ Next # [Add ''/settings'', MarkFailed ''https://docs.example.com/a'']"
          and ?cs1.0 = "[Add ''/'', Add ''/getting-started'', Add ''/features'', Next]"
          and ?cs2.0 = "[Add ''/settings'', MarkFailed ''https://docs.example.com/a'']"]
      r rest unvisited limit
    by (simp only: run1 out whole) (simp add: docs_dropped_def docs_frontier_def docs_manager_def)
  show ?thesis using a k first r ca out run1 whole second by simp
qed

text \<open>The claim as it was stated, for every sequence of calls, fails: once
  \<open>get_next_url\<close> has handed a URL out and it has not been marked visited, the same
  URL, here with a fragment, is accepted again.\<close>

theorem readd_counterexample:
  "normalize_url (docs_manager None) ''https://docs.example.com/a''
     = normalize_url (docs_manager None) ''https://docs.example.com/a#top''
   \<and> accepts (crawl ''https://docs.example.com/'' None []) ''https://docs.example.com/a''
   \<and> accepts (crawl ''https://docs.example.com/'' None
                 [Add ''https://docs.example.com/a'', Next, Next])
        ''https://docs.example.com/a#top''"
  by (simp add: accepts_def docs_eval)

section \<open>Properties of pages\<close>

subsection \<open>Strings that are not empty\<close>

lemma title_from_nonempty: "s \<noteq> [] \<Longrightarrow> title_from b s \<noteq> []"
  by (cases s) (simp_all add: title_char_def)

lemma py_title_nonempty: "s \<noteq> [] \<Longrightarrow> py_title s \<noteq> []"
  by (simp add: py_title_def title_from_nonempty)

lemma length_replace_char: "length (py_replace s [c] [d]) = length s"
  unfolding py_replace_def by (induction s) simp_all

lemma py_replace_char_nonempty: "s \<noteq> [] \<Longrightarrow> py_replace s [c] [d] \<noteq> []"
  using length_replace_char [of s c d] by auto

lemma py_split_nonempty: "py_split c s \<noteq> []"
  by (induction s) (auto split: list.splits)

lemma last_py_split_nonempty:
  "s \<noteq> [] \<Longrightarrow> last s \<noteq> c \<Longrightarrow> last (py_split c s) \<noteq> []"
proof (induction s)
  case Nil
  then show ?case by simp
next
  case (Cons x s)
  show ?case
  proof (cases "s = []")
    case True
    then show ?thesis using Cons.prems by simp
  next
    case False
    then have ih: "last (py_split c s) \<noteq> []" using Cons by simp
    obtain w ws where ws: "py_split c s = w # ws"
      using py_split_nonempty [of c s] by (cases "py_split c s") auto
    show ?thesis
    proof (cases "x = c")
      case True
      then show ?thesis using ih ws by simp
    next
      case False
      then show ?thesis using ih ws by (cases ws) simp_all
    qed
  qed
qed

lemma rstrip_last:
  assumes "rstrip_chars cs s \<noteq> []"
  shows "last (rstrip_chars cs s) \<notin> set cs"
proof -
  have ne: "dropWhile (\<lambda>c. c \<in> set cs) (rev s) \<noteq> []"
    using assms by (simp add: rstrip_chars_def)
  then have "hd (dropWhile (\<lambda>c. c \<in> set cs) (rev s)) \<notin> set cs"
    by (rule hd_dropWhile)
  then show ?thesis using ne by (simp add: rstrip_chars_def last_rev)
qed

lemma last_segment_nonempty:
  assumes "strip_chars ''/'' p \<noteq> []"
  shows "last (py_split CHR ''/'' (strip_chars ''/'' p)) \<noteq> []"
proof -
  have "last (strip_chars ''/'' p) \<notin> set ''/''"
    using rstrip_last [of "''/''" "lstrip_chars ''/'' p"] assms
    unfolding strip_chars_def by blast
  then have "last (strip_chars ''/'' p) \<noteq> CHR ''/''" by simp
  then show ?thesis using assms by (rule last_py_split_nonempty [rotated])
qed

lemma py_join_nonempty: "w \<noteq> [] \<Longrightarrow> py_join sep (w # ws) \<noteq> []"
  by (cases ws) simp_all

lemma generate_order_key_nonempty:
  "PageContent_generate_order_key self = Inr k \<Longrightarrow> k \<noteq> []"
proof -
  assume a: "PageContent_generate_order_key self = Inr k"
  have "py_join ''_'' (PageContent_order_parts 0 (py_split CHR ''/'' p)) \<noteq> []" for p
    using py_split_nonempty [of "CHR ''/''" p]
    by (cases "py_split CHR ''/'' p") (simp_all add: py_join_nonempty)
  then show ?thesis using a
    by (auto simp: PageContent_generate_order_key_def Let_def split: sum.splits if_splits)
qed

lemma extract_title_nonempty:
  "extract_title_from_url self = Inr t \<Longrightarrow> t \<noteq> []"
  by (auto simp: extract_title_from_url_def Let_def py_title_nonempty py_replace_char_nonempty
      last_segment_nonempty split: sum.splits if_splits)

lemma post_init_fields:
  assumes "PageContent_post_init self = Inr page"
  shows "title page \<noteq> []" and "order_key page \<noteq> []"
    and "title self \<noteq> [] \<longrightarrow> title page = title self"
    and "order_key self \<noteq> [] \<longrightarrow> order_key page = order_key self"
    and "title self = [] \<longrightarrow> extract_title_from_url self = Inr (title page)"
    and "order_key self = [] \<longrightarrow> PageContent_generate_order_key self = Inr (order_key page)"
    and "url page = url self" and "content_html page = content_html self"
    and "text_content page = text_content self" and "images page = images self"
    and "final_url page = final_url self"
proof -
  obtain self1 where s1: "(if order_key self = []
            then map_sum id (\<lambda>k. self\<lparr>order_key := k\<rparr>) (PageContent_generate_order_key self)
            else Inr self) = Inr self1"
    and p: "(if title self1 = []
         then map_sum id (\<lambda>t. self1\<lparr>title := t\<rparr>) (extract_title_from_url self1)
         else Inr self1) = Inr page"
    using assms by (auto simp: PageContent_post_init_def split: sum.splits)
  have k1: "order_key self1 \<noteq> []" "title self1 = title self" "url self1 = url self"
    "order_key self \<noteq> [] \<longrightarrow> order_key self1 = order_key self"
    "order_key self = [] \<longrightarrow> PageContent_generate_order_key self = Inr (order_key self1)"
    "content_html self1 = content_html self" "text_content self1 = text_content self"
    "images self1 = images self" "final_url self1 = final_url self"
    using s1 generate_order_key_nonempty [of self]
    by (auto split: if_splits sum.splits simp: map_sum_def)
  have k2: "order_key page = order_key self1" "title page \<noteq> []"
    "title self1 \<noteq> [] \<longrightarrow> title page = title self1"
    "title self1 = [] \<longrightarrow> extract_title_from_url self1 = Inr (title page)"
    "url page = url self1" "content_html page = content_html self1"
    "text_content page = text_content self1" "images page = images self1"
    "final_url page = final_url self1"
    using p extract_title_nonempty [of self1]
    by (auto split: if_splits sum.splits simp: map_sum_def)
  have same: "extract_title_from_url self1 = extract_title_from_url self"
    using k1(3) by (simp add: extract_title_from_url_def)
  show "title page \<noteq> []" by (rule k2(2))
  show "order_key page \<noteq> []" using k1(1) k2(1) by simp
  show "title self \<noteq> [] \<longrightarrow> title page = title self" using k1(2) k2(3) by simp
  show "order_key self \<noteq> [] \<longrightarrow> order_key page = order_key self" using k1(4) k2(1) by simp
  show "title self = [] \<longrightarrow> extract_title_from_url self = Inr (title page)"
    using same k1(2) k2(4) by simp
  show "order_key self = [] \<longrightarrow> PageContent_generate_order_key self = Inr (order_key page)"
    using k1(5) k2(1) by simp
  show "url page = url self" using k1(3) k2(5) by simp
  show "content_html page = content_html self" using k1(6) k2(6) by simp
  show "text_content page = text_content self" using k1(7) k2(7) by simp
  show "images page = images self" using k1(8) k2(8) by simp
  show "final_url page = final_url self" using k1(9) k2(9) by simp
qed

subsection \<open>Order keys of the example site\<close>

lemma format_03d_0: "format_03d 0 = ''000''"
  by (simp add: format_03d_def str_nat.simps digit_char_def digit_chars_def numeral_2_eq_2)

lemmas key_defs = generate_order_key_def PageContent_generate_order_key_def urlparse_def
  strip_chars_def lstrip_chars_def rstrip_chars_def priority_pages_def clean_path_part_def
  py_replace_def format_03d_0 digit_chars_def isdigit_def split_numeric_prefix_def Let_def

lemma key_root: "generate_order_key ''https://docs.example.com/'' = ''000_index''"
  by (simp add: key_defs parse_docs_root)

lemma key_features: "generate_order_key ''https://docs.example.com/features'' = ''000_features''"
  by (simp add: key_defs parse_docs_features)

lemma key_getting_started:
  "generate_order_key ''https://docs.example.com/getting-started'' = ''001_getting_started''"
  by (simp add: key_defs parse_docs_getting_started)

lemma post_init_getting_started:
  "PageContent_post_init
     \<lparr>url = ''https://docs.example.com/getting-started'', title = [],
      content_html = ''<h1>Start</h1>'', text_content = ''Start'', images = [],
      order_key = [], final_url = None\<rparr>
   = Inr \<lparr>url = ''https://docs.example.com/getting-started'', title = ''Getting Started'',
           content_html = ''<h1>Start</h1>'', text_content = ''Start'', images = [],
           order_key = ''000_getting_started'', final_url = None\<rparr>"
  by (simp add: PageContent_post_init_def extract_title_from_url_def key_defs
      parse_docs_getting_started py_title_def cased_def title_char_def isascii_alpha_def
      ascii_lower_def ascii_upper_def upper_char_def lower_char_def)

subsection \<open>Title and order key of a constructed page\<close>

text \<open>The loop of \<open>_generate_order_key\<close> numbers the segments of the path as
  \<open>enumerate\<close> does.\<close>

lemma order_parts_enumerate:
  "PageContent_order_parts i parts
   = map (\<lambda>(i, part). format_03d i @ ''_'' @ py_replace (py_replace part ''.html'' []) ''-'' ''_'')
       (enumerate i parts)"
  by (induction parts arbitrary: i) simp_all

text \<open>
  Claim C10. A page that \<open>__post_init__\<close> lets through has a title and an order key
  that are not empty. A title or key given by the caller is kept. A missing title is
  \<open>Home\<close> for the root path and otherwise the last segment of the path with \<open>-\<close> and
  \<open>_\<close> turned into spaces, in title case (stated for the URLs whose title case stays
  below U+0100). A missing order key is \<open>000_index\<close> for the root path and the paths
  \<open>index\<close> and \<open>index.html\<close>; for any other path it is made of the segments of the
  path, each without \<open>.html\<close>, with \<open>_\<close> for \<open>-\<close> and after its three-digit index
  counted from zero, joined by \<open>_\<close>.
\<close>

theorem post_init_title_and_key:
  assumes "PageContent_post_init self = Inr page"
  shows "title page \<noteq> [] \<and> order_key page \<noteq> []
     \<and> (title self \<noteq> [] \<longrightarrow> title page = title self)
     \<and> (order_key self \<noteq> [] \<longrightarrow> order_key page = order_key self)
     \<and> (title self = [] \<or> order_key self = [] \<longrightarrow>
          (\<exists>parsed. urlparse (url self) = Inr parsed
            \<and> (title self = [] \<and> title_in_range (url self) \<longrightarrow>
                 title page =
                   (if strip_chars ''/'' (path parsed) = [] then ''Home''
                    else py_title (py_replace (py_replace
                           (last (py_split CHR ''/'' (strip_chars ''/'' (path parsed))))
                           ''-'' '' '') ''_'' '' '')))
            \<and> (order_key self = [] \<longrightarrow>
                 order_key page =
                   (if strip_chars ''/'' (path parsed) \<in> {[], ''index'', ''index.html''}
                    then ''000_index''
                    else py_join ''_''
                           (map (\<lambda>(i, part). format_03d i @ ''_''
                                   @ py_replace (py_replace part ''.html'' []) ''-'' ''_'')
                              (enumerate 0
                                 (py_split CHR ''/'' (strip_chars ''/'' (path parsed)))))))))"
proof -
  note f = post_init_fields [OF assms]
  have derived: "\<exists>parsed. urlparse (url self) = Inr parsed
            \<and> (title self = [] \<and> title_in_range (url self) \<longrightarrow>
                 title page =
                   (if strip_chars ''/'' (path parsed) = [] then ''Home''
                    else py_title (py_replace (py_replace
                           (last (py_split CHR ''/'' (strip_chars ''/'' (path parsed))))
                           ''-'' '' '') ''_'' '' '')))
            \<and> (order_key self = [] \<longrightarrow>
                 order_key page =
                   (if strip_chars ''/'' (path parsed) \<in> {[], ''index'', ''index.html''}
                    then ''000_index''
                    else py_join ''_''
                           (map (\<lambda>(i, part). format_03d i @ ''_''
                                   @ py_replace (py_replace part ''.html'' []) ''-'' ''_'')
                              (enumerate 0
                                 (py_split CHR ''/'' (strip_chars ''/'' (path parsed)))))))"
    if t: "title self = [] \<or> order_key self = []"
  proof (cases "urlparse (url self)")
    case (Inl e)
    then show ?thesis using f(5,6) t
      by (auto simp: extract_title_from_url_def PageContent_generate_order_key_def)
  next
    case (Inr parsed)
    have "title page =
                    (if strip_chars ''/'' (path parsed) = [] then ''Home''
                     else py_title (py_replace (py_replace
                            (last (py_split CHR ''/'' (strip_chars ''/'' (path parsed))))
                            ''-'' '' '') ''_'' '' ''))" if "title self = []"
      using f(5) that Inr
      by (cases "strip_chars ''/'' (path parsed) = []")
         (simp_all add: extract_title_from_url_def Let_def)
    moreover have "order_key page =
                   (if strip_chars ''/'' (path parsed) \<in> {[], ''index'', ''index.html''}
                    then ''000_index''
                    else py_join ''_''
                           (map (\<lambda>(i, part). format_03d i @ ''_''
                                   @ py_replace (py_replace part ''.html'' []) ''-'' ''_'')
                              (enumerate 0
                                 (py_split CHR ''/'' (strip_chars ''/'' (path parsed))))))"
      if "order_key self = []"
      using f(6) that Inr
      by (cases "strip_chars ''/'' (path parsed) \<in> {[], ''index'', ''index.html''}")
         (simp_all add: PageContent_generate_order_key_def Let_def order_parts_enumerate)
    ultimately show ?thesis using Inr by blast
  qed
  show ?thesis
    using f(1,2,3,4) by (intro conjI impI derived) simp_all
qed

lemma parse_docs_install:
  "urlparse_scheme ''https://docs.example.com/guide/install-linux.html'' []
   = Inr \<lparr>scheme = ''https'', netloc = ''docs.example.com'',
           path = ''/guide/install-linux.html'', params = [], query = [], fragment = []\<rparr>"
  by (simp add: parse_defs)

lemma format_03d_1: "format_03d (Suc 0) = ''001''"
  by (simp add: format_03d_def str_nat.simps digit_char_def digit_chars_def numeral_2_eq_2)

lemma post_init_install:
  "PageContent_post_init
     \<lparr>url = ''https://docs.example.com/guide/install-linux.html'', title = [],
      content_html = ''<h1>Install</h1>'', text_content = ''Install'', images = [],
      order_key = [], final_url = None\<rparr>
   = Inr \<lparr>url = ''https://docs.example.com/guide/install-linux.html'',
           title = ''Install Linux.Html'',
           content_html = ''<h1>Install</h1>'', text_content = ''Install'', images = [],
           order_key = ''000_guide_001_install_linux'', final_url = None\<rparr>"
  by (simp add: PageContent_post_init_def extract_title_from_url_def key_defs format_03d_1
      parse_docs_install py_title_def cased_def title_char_def isascii_alpha_def
      ascii_lower_def ascii_upper_def upper_char_def lower_char_def)

theorem post_init_title_and_key_witness:
  "PageContent_post_init
     \<lparr>url = ''https://docs.example.com/guide/install-linux.html'', title = [],
      content_html = ''<h1>Install</h1>'', text_content = ''Install'', images = [],
      order_key = [], final_url = None\<rparr>
   = Inr \<lparr>url = ''https://docs.example.com/guide/install-linux.html'',
           title = ''Install Linux.Html'',
           content_html = ''<h1>Install</h1>'', text_content = ''Install'', images = [],
           order_key = ''000_guide_001_install_linux'', final_url = None\<rparr>
   \<and> title_in_range ''https://docs.example.com/guide/install-linux.html''
   \<and> ''Install Linux.Html''
       = py_title (py_replace (py_replace ''install-linux.html'' ''-'' '' '') ''_'' '' '')
   \<and> ''000_guide_001_install_linux''
       = py_join ''_''
           (map (\<lambda>(i, part). format_03d i @ ''_''
                   @ py_replace (py_replace part ''.html'' []) ''-'' ''_'')
              (enumerate 0 [''guide'', ''install-linux.html'']))"
proof -
  have r: "title_in_range ''https://docs.example.com/guide/install-linux.html''"
    by (simp add: title_in_range_def)
  have p: "urlparse ''https://docs.example.com/guide/install-linux.html''
           = Inr \<lparr>scheme = ''https'', netloc = ''docs.example.com'',
                   path = ''/guide/install-linux.html'', params = [], query = [],
                   fragment = []\<rparr>"
    by (simp add: urlparse_def parse_docs_install)
  have s: "strip_chars ''/'' ''/guide/install-linux.html'' = ''guide/install-linux.html''"
    by (simp add: strip_chars_def lstrip_chars_def rstrip_chars_def)
  have sp: "py_split CHR ''/'' ''guide/install-linux.html'' = [''guide'', ''install-linux.html'']"
    by simp
  show ?thesis
    using post_init_title_and_key [OF post_init_install] post_init_install r
    by (simp add: p s sp)
qed

section \<open>Properties of the sorter\<close>

text \<open>The key depends on the path of the URL only, and the keys reserved for the root
  and for the priority pages are in the order of the table.\<close>

lemma order_key_depends_on_path:
  "urlparse u = Inr p \<Longrightarrow> urlparse v = Inr q \<Longrightarrow> path p = path q \<Longrightarrow>
   generate_order_key u = generate_order_key v"
  by (simp add: generate_order_key_def)

lemma priority_keys_in_order:
  "sorted_wrt (<) (''000_index'' # map snd priority_pages)"
  by (simp add: priority_pages_def)

text \<open>
  Claim C3, the ordering. A general path gets the index of each segment, counted from
  \<open>000\<close>, in front of the segment. So the key of \<open>/features\<close> is \<open>000_features\<close>, which
  sorts before the key \<open>000_index\<close> of the root and before the key
  \<open>001_getting_started\<close> of the first priority page: general pages are not after the
  root and the priority pages.
\<close>

theorem general_path_sorts_first:
  "generate_order_key ''https://docs.example.com/'' = ''000_index''
   \<and> generate_order_key ''https://docs.example.com/getting-started'' = ''001_getting_started''
   \<and> generate_order_key ''https://docs.example.com/features'' = ''000_features''
   \<and> generate_order_key ''https://docs.example.com/features''
       < generate_order_key ''https://docs.example.com/''
   \<and> generate_order_key ''https://docs.example.com/features''
       < generate_order_key ''https://docs.example.com/getting-started''"
  by (simp add: key_root key_features key_getting_started)

text \<open>
  Claim C9. For \<open>/getting-started\<close> the sorter computes \<open>001_getting_started\<close>, but
  the constructor of the page has already stored \<open>000_getting_started\<close>, from its own
  shorter function without the priority table. \<open>sort_pages\<close> only fills an empty key,
  so it sorts the page by the key of the constructor.
\<close>

theorem two_order_keys:
  "generate_order_key ''https://docs.example.com/getting-started'' = ''001_getting_started''
   \<and> map_sum id order_key (PageContent_post_init
         \<lparr>url = ''https://docs.example.com/getting-started'', title = [],
          content_html = ''<h1>Start</h1>'', text_content = ''Start'', images = [],
          order_key = [], final_url = None\<rparr>) = Inr ''000_getting_started''
   \<and> map order_key (sort_pages
         [\<lparr>url = ''https://docs.example.com/getting-started'', title = ''Getting Started'',
           content_html = ''<h1>Start</h1>'', text_content = ''Start'', images = [],
           order_key = ''000_getting_started'', final_url = None\<rparr>])
       = [''000_getting_started'']"
  by (simp add: key_getting_started post_init_getting_started sort_pages_def
      assign_order_key_def)

section \<open>Properties of deduplication\<close>

lemma deduplicate_loop_acc:
  "deduplicate_loop seen acc ps = acc @ deduplicate_loop seen [] ps"
proof (induction ps arbitrary: seen acc)
  case Nil
  then show ?case by simp
next
  case (Cons p ps)
  show ?case
    using Cons [of "insert (check_url p) seen" "acc @ [p]"]
      Cons [of "insert (check_url p) seen" "[p]"] Cons [of seen acc]
    by simp
qed

lemma deduplicate_loop_keys:
  "distinct (map check_url (deduplicate_loop seen [] ps))
   \<and> set (map check_url (deduplicate_loop seen [] ps)) = check_url ` set ps - seen"
proof (induction ps arbitrary: seen)
  case Nil
  then show ?case by simp
next
  case (Cons p ps)
  show ?case
  proof (cases "check_url p \<in> seen")
    case True
    then show ?thesis using Cons [of seen] by auto
  next
    case False
    have "deduplicate_loop seen [] (p # ps)
          = p # deduplicate_loop (insert (check_url p) seen) [] ps"
      using False deduplicate_loop_acc [of "insert (check_url p) seen" "[p]" ps] by simp
    then show ?thesis using False Cons [of "insert (check_url p) seen"] by auto
  qed
qed

lemma deduplicate_loop_first:
  "p \<in> set (deduplicate_loop seen [] ps) \<Longrightarrow>
   find (\<lambda>q. check_url q = check_url p) ps = Some p"
proof (induction ps arbitrary: seen)
  case Nil
  then show ?case by simp
next
  case (Cons x ps)
  show ?case
  proof (cases "check_url x \<in> seen")
    case True
    then have in_rest: "p \<in> set (deduplicate_loop seen [] ps)" using Cons.prems by simp
    then have "check_url p \<notin> seen"
      using deduplicate_loop_keys [of seen ps] by (metis DiffD2 image_eqI list.set_map)
    then have "check_url x \<noteq> check_url p" using True by auto
    then show ?thesis using Cons.IH [OF in_rest] by simp
  next
    case False
    have eq: "deduplicate_loop seen [] (x # ps)
          = x # deduplicate_loop (insert (check_url x) seen) [] ps"
      using False deduplicate_loop_acc [of "insert (check_url x) seen" "[x]" ps] by simp
    show ?thesis
    proof (cases "p = x")
      case True
      then show ?thesis by simp
    next
      case neq: False
      then have in_rest: "p \<in> set (deduplicate_loop (insert (check_url x) seen) [] ps)"
        using Cons.prems eq by simp
      then have "check_url p \<notin> insert (check_url x) seen"
        using deduplicate_loop_keys [of "insert (check_url x) seen" ps]
        by (metis DiffD2 image_eqI list.set_map)
      then have "check_url x \<noteq> check_url p" by auto
      then show ?thesis using Cons.IH [OF in_rest] by simp
    qed
  qed
qed

lemma check_url_assign: "check_url (assign_order_key p) = check_url p"
  by (cases "final_url p") (simp_all add: check_url_def assign_order_key_def)

lemma pages_of_pdf_keys:
  "distinct (map check_url (pages_of_pdf pages))
   \<and> set (map check_url (pages_of_pdf pages)) = set (map check_url pages)"
proof -
  let ?d = "deduplicate_pages pages"
  have keys: "distinct (map check_url ?d) \<and> set (map check_url ?d) = set (map check_url pages)"
    using deduplicate_loop_keys [of "{}" pages] by (simp add: deduplicate_pages_def)
  have same: "map check_url (map assign_order_key ?d) = map check_url ?d"
    by (simp add: check_url_assign)
  have "distinct (map check_url (sort_key order_key zs)) = distinct (map check_url zs)" for zs
    by (simp add: distinct_map)
  moreover have "set (map check_url (sort_key order_key zs)) = set (map check_url zs)" for zs
    by simp
  ultimately have "distinct (map check_url (pages_of_pdf pages))
     \<and> set (map check_url (pages_of_pdf pages)) = set (map check_url ?d)"
    using keys same by (simp only: pages_of_pdf_def sort_pages_def)
  then show ?thesis using keys by simp
qed

text \<open>
  Claim C7. The key of a page is its final URL when there is one (and it is not the empty
  string), its URL otherwise. After deduplication, and in the sorted list the document is
  made from, no two pages have the same key and every key of the input is still there;
  the page kept for a key is the first page of the input with that key. Two pages with
  the same final URL leave one page, the first.
\<close>

theorem deduplicate_keeps_first:
  "(final_url p = Some f \<and> f \<noteq> [] \<longrightarrow> check_url p = f)
   \<and> (final_url p = None \<or> final_url p = Some [] \<longrightarrow> check_url p = url p)
   \<and> distinct (map check_url (deduplicate_pages pages))
   \<and> set (map check_url (deduplicate_pages pages)) = set (map check_url pages)
   \<and> distinct (map check_url (pages_of_pdf pages))
   \<and> set (map check_url (pages_of_pdf pages)) = set (map check_url pages)
   \<and> (\<forall>q \<in> set (deduplicate_pages pages).
         find (\<lambda>r. check_url r = check_url q) pages = Some q)
   \<and> (final_url p1 = Some f \<and> final_url p2 = Some f \<and> f \<noteq> [] \<longrightarrow>
         deduplicate_pages [p1, p2] = [p1] \<and> pages_of_pdf [p1, p2] = [assign_order_key p1])"
proof -
  have keys: "distinct (map check_url (deduplicate_pages pages))
      \<and> set (map check_url (deduplicate_pages pages)) = set (map check_url pages)"
    using deduplicate_loop_keys [of "{}" pages] by (simp add: deduplicate_pages_def)
  have first: "\<forall>q \<in> set (deduplicate_pages pages).
         find (\<lambda>r. check_url r = check_url q) pages = Some q"
    using deduplicate_loop_first [of _ "{}" pages] by (simp add: deduplicate_pages_def)
  have two: "deduplicate_pages [p1, p2] = [p1] \<and> pages_of_pdf [p1, p2] = [assign_order_key p1]"
    if "final_url p1 = Some f \<and> final_url p2 = Some f \<and> f \<noteq> []"
    using that by (simp add: pages_of_pdf_def deduplicate_pages_def check_url_def sort_pages_def)
  have key: "(final_url p = Some f \<and> f \<noteq> [] \<longrightarrow> check_url p = f)
   \<and> (final_url p = None \<or> final_url p = Some [] \<longrightarrow> check_url p = url p)"
    by (auto simp: check_url_def)
  show ?thesis using keys first two key pages_of_pdf_keys [of pages] by blast
qed

theorem deduplicate_keeps_first_witness:
  "deduplicate_pages
     [\<lparr>url = ''https://docs.example.com/start'', title = ''Start'', content_html = ''<p>a</p>'',
       text_content = ''a'', images = [], order_key = ''000_start'',
       final_url = Some ''https://docs.example.com/getting-started''\<rparr>,
      \<lparr>url = ''https://docs.example.com/getting-started'', title = ''Getting Started'',
       content_html = ''<p>b</p>'', text_content = ''b'', images = [],
       order_key = ''000_getting_started'',
       final_url = Some ''https://docs.example.com/getting-started''\<rparr>]
   = [\<lparr>url = ''https://docs.example.com/start'', title = ''Start'', content_html = ''<p>a</p>'',
       text_content = ''a'', images = [], order_key = ''000_start'',
       final_url = Some ''https://docs.example.com/getting-started''\<rparr>]
   \<and> pages_of_pdf
     [\<lparr>url = ''https://docs.example.com/start'', title = ''Start'', content_html = ''<p>a</p>'',
       text_content = ''a'', images = [], order_key = ''000_start'',
       final_url = Some ''https://docs.example.com/getting-started''\<rparr>,
      \<lparr>url = ''https://docs.example.com/getting-started'', title = ''Getting Started'',
       content_html = ''<p>b</p>'', text_content = ''b'', images = [],
       order_key = ''000_getting_started'',
       final_url = Some ''https://docs.example.com/getting-started''\<rparr>]
   = [\<lparr>url = ''https://docs.example.com/start'', title = ''Start'', content_html = ''<p>a</p>'',
       text_content = ''a'', images = [], order_key = ''000_start'',
       final_url = Some ''https://docs.example.com/getting-started''\<rparr>]
   \<and> find (\<lambda>r. check_url r = ''https://docs.example.com/getting-started'')
       [\<lparr>url = ''https://docs.example.com/start'', title = ''Start'', content_html = ''<p>a</p>'',
       text_content = ''a'', images = [], order_key = ''000_start'',
       final_url = Some ''https://docs.example.com/getting-started''\<rparr>,
        \<lparr>url = ''https://docs.example.com/getting-started'', title = ''Getting Started'',
       content_html = ''<p>b</p>'', text_content = ''b'', images = [],
       order_key = ''000_getting_started'',
       final_url = Some ''https://docs.example.com/getting-started''\<rparr>]
     = Some \<lparr>url = ''https://docs.example.com/start'', title = ''Start'', content_html = ''<p>a</p>'',
       text_content = ''a'', images = [], order_key = ''000_start'',
       final_url = Some ''https://docs.example.com/getting-started''\<rparr>"
  using deduplicate_keeps_first [of
      "\<lparr>url = ''https://docs.example.com/start'', title = ''Start'', content_html = ''<p>a</p>'',
       text_content = ''a'', images = [], order_key = ''000_start'',
       final_url = Some ''https://docs.example.com/getting-started''\<rparr>"
      "''https://docs.example.com/getting-started''"
      "[\<lparr>url = ''https://docs.example.com/start'', title = ''Start'', content_html = ''<p>a</p>'',
       text_content = ''a'', images = [], order_key = ''000_start'',
       final_url = Some ''https://docs.example.com/getting-started''\<rparr>,
        \<lparr>url = ''https://docs.example.com/getting-started'', title = ''Getting Started'',
       content_html = ''<p>b</p>'', text_content = ''b'', images = [],
       order_key = ''000_getting_started'',
       final_url = Some ''https://docs.example.com/getting-started''\<rparr>]"
      "\<lparr>url = ''https://docs.example.com/start'', title = ''Start'', content_html = ''<p>a</p>'',
       text_content = ''a'', images = [], order_key = ''000_start'',
       final_url = Some ''https://docs.example.com/getting-started''\<rparr>"
      "\<lparr>url = ''https://docs.example.com/getting-started'', title = ''Getting Started'',
       content_html = ''<p>b</p>'', text_content = ''b'', images = [],
       order_key = ''000_getting_started'',
       final_url = Some ''https://docs.example.com/getting-started''\<rparr>"]
  by (simp add: assign_order_key_def check_url_def)

section \<open>Properties of the image classifier\<close>

text \<open>
  Claim C8, as amended. The alt text counts once the white space around it is stripped
  (all that \<open>str.strip\<close> removes, the no-break space included), and \<open>app-logo.svg\<close> is
  excluded from the documentation patterns. An image whose URL
  matches a documentation pattern and whose alt text is longer than 10 characters is
  content whatever width and height it declares, if the alt text is still longer than 10
  characters when stripped, or the URL does not contain \<open>app-logo.svg\<close>.
\<close>

theorem described_image_is_content:
  assumes "matches_doc_image_pattern (py_lower src)"
    and "alt img = Some a" and "10 < length a"
    and "10 < length (py_strip a) \<or> \<not> py_in ''app-logo.svg'' (py_lower src)"
  shows "\<not> is_ui_icon (img\<lparr>width := w, height := h\<rparr>) src"
  using assms by (auto simp: is_ui_icon_def is_documentation_image_def)

lemmas image_defs = is_ui_icon_def is_documentation_image_def matches_doc_image_pattern_def
  doc_image_patterns_def py_lower_def lower_char_def ascii_lower_def ascii_upper_def
  py_strip_def isspace_def declared_size_def py_int_def int_space_def nat_of_digits_def
  digit_value_def digit_chars_def isdecimal_def Let_def

theorem padded_alt_logo_counterexample:
  "matches_doc_image_pattern (py_lower ''https://docs.example.com/images/app-logo.svg'')
   \<and> 10 < length ''  App logo  ''
   \<and> is_ui_icon \<lparr>alt = Some ''  App logo  '', width = Some ''16'', height = Some ''16'',
                  img_classes = [], parents = []\<rparr>
        ''https://docs.example.com/images/app-logo.svg''
   \<and> 10 < length ([CHR 0xA0, CHR 0xA0, CHR 0xA0] @ ''App logo'' @ [CHR 0xA0])
   \<and> is_ui_icon \<lparr>alt = Some ([CHR 0xA0, CHR 0xA0, CHR 0xA0] @ ''App logo'' @ [CHR 0xA0]),
                  width = Some ''16'', height = Some ''16'', img_classes = [], parents = []\<rparr>
        ''https://docs.example.com/images/app-logo.svg''"
  by (simp add: image_defs)

theorem described_image_is_content_witness:
  "matches_doc_image_pattern (py_lower ''https://docs.example.com/images/pipeline.png'')
   \<and> 10 < length ''Indexing pipeline''
   \<and> 10 < length (py_strip ''Indexing pipeline'')
   \<and> \<not> is_ui_icon \<lparr>alt = Some ''Indexing pipeline'', width = Some ''16'',
                     height = Some ''16'', img_classes = [], parents = []\<rparr>
          ''https://docs.example.com/images/pipeline.png''"
proof -
  have m: "matches_doc_image_pattern (py_lower ''https://docs.example.com/images/pipeline.png'')"
    by (simp add: matches_doc_image_pattern_def doc_image_patterns_def py_lower_def
        lower_char_def ascii_lower_def ascii_upper_def)
  have s: "10 < length (py_strip ''Indexing pipeline'')"
    by (simp add: py_strip_def isspace_def)
  have "\<not> is_ui_icon (\<lparr>alt = Some ''Indexing pipeline'', width = None, height = None,
                          img_classes = [], parents = []\<rparr>
                        \<lparr>width := Some ''16'', height := Some ''16''\<rparr>)
          ''https://docs.example.com/images/pipeline.png''"
    by (rule described_image_is_content [OF m, of _ "''Indexing pipeline''"])
       (simp_all add: s)
  then show ?thesis using m s by simp
qed

section \<open>Properties of \<open>parse_page\<close>\<close>

lemma and_then_isl: "(\<And>x. isl (f x)) \<Longrightarrow> isl (and_then r f)"
  by (cases r) (simp_all add: and_then_def)

lemma post_init_bad_url:
  "urlparse (url self) = Inl e \<Longrightarrow> order_key self = [] \<Longrightarrow> PageContent_post_init self = Inl e"
  by (simp add: PageContent_post_init_def PageContent_generate_order_key_def)

lemma post_init_good_url:
  "urlparse (url self) = Inr parsed \<Longrightarrow> \<exists>page. PageContent_post_init self = Inr page"
  by (simp add: PageContent_post_init_def PageContent_generate_order_key_def
      extract_title_from_url_def Let_def)

lemma generate_order_key_good_url:
  "urlparse (url self) = Inr parsed \<Longrightarrow> \<exists>k. PageContent_generate_order_key self = Inr k"
  by (simp add: PageContent_generate_order_key_def Let_def)

lemma parse_page_bad_url:
  assumes "urlparse (pd_url d) = Inl e"
  shows "parse_page st d = Inl e"
proof -
  have "isl (parse_try st d)"
    unfolding parse_try_def
    by (intro and_then_isl) (simp add: post_init_bad_url [where e = e] assms)
  moreover have "isl (parse_fallback st d)"
    unfolding parse_fallback_def
    by (intro and_then_isl) (simp add: post_init_bad_url [where e = e] assms)
  moreover have "parse_ultimate st d e' = Inl e" for e'
    by (simp add: parse_ultimate_def post_init_bad_url [where e = e] assms)
  ultimately show ?thesis
    by (auto simp: parse_page_def isl_def split: sum.splits)
qed

lemma parse_page_returns:
  assumes "urlparse (pd_url d) = Inr parsed"
  shows "\<exists>page. parse_page st d = Inr page"
proof -
  have "\<exists>page. parse_ultimate st d e = Inr page" for e
    unfolding parse_ultimate_def using assms by (intro post_init_good_url) simp
  then show ?thesis
    by (cases "parse_try st d"; cases "parse_fallback st d") (simp_all add: parse_page_def)
qed

lemma fallback_page_valid:
  assumes "PageContent_post_init self = Inr page" and "url self \<noteq> []"
    and "content_html self \<noteq> []"
  shows "is_valid page"
  using post_init_fields(1,7,8) [OF assms(1)] assms(2,3) by (simp add: is_valid_def)

text \<open>
  Claim C4, as amended. For a page whose URL \<open>urlparse\<close> accepts, \<open>parse_page\<close> returns a
  page with a title and an order key, whatever the stages do. If the pipeline raises, the
  page is valid when the URL is not empty; and if the HTML can still be parsed and its
  text read, the page is the preview page: at most the first 1000 characters of that
  text, the same between the marker paragraph and \<open></pre>\<close> as markup, the title of the
  input or \<open>Error Page\<close>, and no images.
\<close>

theorem parse_page_fallback:
  assumes "urlparse (pd_url d) = Inr parsed"
  shows "\<exists>page. parse_page st d = Inr page \<and> title page \<noteq> [] \<and> order_key page \<noteq> []
           \<and> (parse_try st d = Inl e \<and> pd_url d \<noteq> [] \<longrightarrow> is_valid page)
           \<and> (parse_try st d = Inl e \<and> BeautifulSoup st (html_content d) = Inr soup
               \<and> get_text_strip st soup = Inr t \<longrightarrow>
                 length (text_content page) \<le> 1000
                 \<and> page = \<lparr>url = pd_url d,
                     title = (if pd_title d \<noteq> [] then pd_title d else ''Error Page''),
                     content_html = ''<p>Content parsing failed. Raw text preview:</p><pre>''
                                    @ take 1000 t @ ''</pre>'',
                     text_content = take 1000 t, images = [], order_key = order_key page,
                     final_url = None\<rparr>)"
proof -
  obtain page where page: "parse_page st d = Inr page"
    using parse_page_returns [OF assms] by blast
  have nonempty: "title page \<noteq> [] \<and> order_key page \<noteq> []"
  proof (cases "parse_try st d")
    case (Inr p)
    have "\<exists>self. PageContent_post_init self = Inr page"
      using Inr page
      by (auto simp: parse_page_def parse_try_def and_then_def split: sum.splits)
    then show ?thesis using post_init_fields(1,2) by blast
  next
    case (Inl e1)
    have "\<exists>self. PageContent_post_init self = Inr page"
      using Inl page
      by (auto simp: parse_page_def parse_fallback_def parse_ultimate_def and_then_def
          split: sum.splits)
    then show ?thesis using post_init_fields(1,2) by blast
  qed
  have valid: "is_valid page" if "parse_try st d = Inl e" and "pd_url d \<noteq> []"
  proof -
    have "\<exists>self. PageContent_post_init self = Inr page \<and> url self \<noteq> []
            \<and> content_html self \<noteq> []"
      using that page
      by (auto simp: parse_page_def parse_fallback_def parse_ultimate_def and_then_def
          split: sum.splits)
    then show ?thesis using fallback_page_valid by blast
  qed
  have preview: "length (text_content page) \<le> 1000
                 \<and> page = \<lparr>url = pd_url d,
                     title = (if pd_title d \<noteq> [] then pd_title d else ''Error Page''),
                     content_html = ''<p>Content parsing failed. Raw text preview:</p><pre>''
                                    @ take 1000 t @ ''</pre>'',
                     text_content = take 1000 t, images = [], order_key = order_key page,
                     final_url = None\<rparr>"
    if "parse_try st d = Inl e" and "BeautifulSoup st (html_content d) = Inr soup"
      and "get_text_strip st soup = Inr t"
  proof -
    let ?self = "\<lparr>url = pd_url d,
          title = (if pd_title d \<noteq> [] then pd_title d else ''Error Page''),
          content_html = ''<p>Content parsing failed. Raw text preview:</p><pre>''
                         @ take 1000 t @ ''</pre>'',
          text_content = take 1000 t, images = [], order_key = [], final_url = None\<rparr>"
    have fb: "parse_fallback st d = PageContent_post_init ?self"
      using that(2,3) by (simp add: parse_fallback_def and_then_def)
    obtain q where q: "PageContent_post_init ?self = Inr q"
      using post_init_good_url [of ?self parsed] assms by auto
    then have "page = q" using page that(1) fb by (simp add: parse_page_def)
    then have pq: "PageContent_post_init ?self = Inr page" using q by simp
    note f = post_init_fields [OF pq]
    have "title page = (if pd_title d \<noteq> [] then pd_title d else ''Error Page'')"
      using f(3) by simp
    then have "page = ?self\<lparr>order_key := order_key page\<rparr>"
      using f(7,8,9,10,11) by simp
    then show ?thesis using f(9) by simp
  qed
  show ?thesis using page nonempty valid preview by blast
qed

theorem parse_page_fallback_witness:
  "parse_page raising_stages \<lparr>pd_url = ''https://docs.example.com/getting-started'',
       pd_title = [], html_content = ''Welcome'', status_code = 200, links = [],
       pd_final_url = None\<rparr>
   = Inr \<lparr>url = ''https://docs.example.com/getting-started'', title = ''Error Page'',
           content_html = ''<p>Content parsing failed. Raw text preview:</p><pre>Welcome</pre>'',
           text_content = ''Welcome'', images = [], order_key = ''000_getting_started'',
           final_url = None\<rparr>"
proof -
  let ?d = "\<lparr>pd_url = ''https://docs.example.com/getting-started'',
       pd_title = [], html_content = ''Welcome'', status_code = 200, links = [],
       pd_final_url = None\<rparr>"
  have u: "urlparse (pd_url ?d) = Inr \<lparr>scheme = ''https'', netloc = ''docs.example.com'',
     path = ''/getting-started'', params = [], query = [], fragment = []\<rparr>"
    by (simp add: urlparse_def parse_docs_getting_started)
  have t: "parse_try raising_stages ?d = Inl ValueError"
    by (simp add: parse_try_def and_then_def raising_stages_def plain_stages_def)
  have b: "BeautifulSoup raising_stages (html_content ?d) = Inr ''Welcome''"
    by (simp add: raising_stages_def plain_stages_def)
  have g: "get_text_strip raising_stages ''Welcome'' = Inr ''Welcome''"
    by (simp add: raising_stages_def plain_stages_def)
  have k: "PageContent_generate_order_key
             \<lparr>url = ''https://docs.example.com/getting-started'', title = ''Error Page'',
              content_html = ''<p>Content parsing failed. Raw text preview:</p><pre>Welcome</pre>'',
              text_content = ''Welcome'', images = [], order_key = [], final_url = None\<rparr>
           = Inr ''000_getting_started''"
    by (simp add: key_defs parse_docs_getting_started)
  obtain page where p: "parse_page raising_stages ?d = Inr page"
    and shape: "page = \<lparr>url = pd_url ?d,
                     title = (if pd_title ?d \<noteq> [] then pd_title ?d else ''Error Page''),
                     content_html = ''<p>Content parsing failed. Raw text preview:</p><pre>''
                                    @ take 1000 ''Welcome'' @ ''</pre>'',
                     text_content = take 1000 ''Welcome'', images = [],
                     order_key = order_key page, final_url = None\<rparr>"
    using parse_page_fallback [OF u, of raising_stages ValueError "''Welcome''" "''Welcome''"]
      t b g by blast
  have pi: "PageContent_post_init
             \<lparr>url = ''https://docs.example.com/getting-started'', title = ''Error Page'',
              content_html = ''<p>Content parsing failed. Raw text preview:</p><pre>Welcome</pre>'',
              text_content = ''Welcome'', images = [], order_key = [], final_url = None\<rparr>
           = Inr \<lparr>url = ''https://docs.example.com/getting-started'', title = ''Error Page'',
              content_html = ''<p>Content parsing failed. Raw text preview:</p><pre>Welcome</pre>'',
              text_content = ''Welcome'', images = [], order_key = ''000_getting_started'',
              final_url = None\<rparr>"
    using k by (simp add: PageContent_post_init_def)
  have "parse_fallback raising_stages ?d
           = Inr \<lparr>url = ''https://docs.example.com/getting-started'', title = ''Error Page'',
              content_html = ''<p>Content parsing failed. Raw text preview:</p><pre>Welcome</pre>'',
              text_content = ''Welcome'', images = [], order_key = ''000_getting_started'',
              final_url = None\<rparr>"
    using b g pi by (simp add: parse_fallback_def and_then_def)
  then have "order_key page = ''000_getting_started''"
    using p t by (auto simp: parse_page_def)
  then show ?thesis using p shape by simp
qed

text \<open>A URL with an open bracket in the host is refused by \<open>urlparse\<close>. Every page
  \<open>parse_page\<close> could return is constructed with that URL, so the \<open>ValueError\<close> of the
  constructor leaves \<open>parse_page\<close>.\<close>

lemma urlparse_open_bracket: "urlparse ''http://['' = Inl ValueError"
  by (simp add: urlparse_def parse_defs)

theorem parse_page_propagates:
  "PageData_post_init \<lparr>pd_url = ''http://['', pd_title = ''Broken link'',
       html_content = ''<p>text</p>'', status_code = 200, links = [], pd_final_url = None\<rparr>
     = Inr \<lparr>pd_url = ''http://['', pd_title = ''Broken link'',
       html_content = ''<p>text</p>'', status_code = 200, links = [], pd_final_url = None\<rparr>
   \<and> parse_page plain_stages \<lparr>pd_url = ''http://['', pd_title = ''Broken link'',
       html_content = ''<p>text</p>'', status_code = 200, links = [], pd_final_url = None\<rparr>
     = Inl ValueError"
  by (simp add: PageData_post_init_def rstrip_chars_def parse_page_bad_url urlparse_open_bracket)

end
